theory Spec2Isabelle
  imports Main "HOL-Library.Multiset"
begin

section \<open>Python values, errors and built-ins used by the sync scripts\<close>

text \<open>
  The inventory feed is a list of dictionaries read from a spreadsheet; a cell is a text,
  an integer, or missing (\<open>dict.get\<close> then gives \<open>None\<close>). Strings are byte lists in
  UTF-8. Apart from \<open>int\<close>, every function below only tests characters against ASCII
  characters, and no byte of a multi-byte UTF-8 sequence is an ASCII byte, so working on
  bytes gives the same result as working on code points; \<open>int\<close> decodes the bytes.
  Floating-point cells are outside this model.
\<close>

datatype pyval = PNone | PInt int | PStr string

datatype py_error =
    ValueError | TypeError | AttributeError | IndexError
  | HTTPError | ReadTimeout | ConnectionError

definition is_digit :: "char \<Rightarrow> bool" where
  "is_digit c = (48 \<le> (of_char c :: nat) \<and> (of_char c :: nat) \<le> 57)"

text \<open>The characters that \<open>int\<close> skips around a number (\<open>Py_ISSPACE\<close>): tab, line
  feed, vertical tab, form feed, carriage return and the space. The separators
  U+001C..U+001F, which \<open>str.isspace\<close> accepts, are not among them.\<close>

definition is_space :: "char \<Rightarrow> bool" where
  "is_space c = (of_char c \<in> {9, 10, 11, 12, 13, 32 :: nat})"

definition digit_char :: "nat \<Rightarrow> char" where
  "digit_char d = char_of (48 + d)"

definition digit_val :: "char \<Rightarrow> nat" where
  "digit_val c = of_char c - 48"

function str_of_nat :: "nat \<Rightarrow> string" where
  "str_of_nat n =
     (if n < 10 then [digit_char n] else str_of_nat (n div 10) @ [digit_char (n mod 10)])"
  by pat_completeness auto
termination
  by (relation "measure id") auto

text \<open>\<open>str(v)\<close> for the three kinds of cell.\<close>

fun py_str :: "pyval \<Rightarrow> string" where
  "py_str PNone = ''None''"
| "py_str (PInt i) = (if i < 0 then CHR ''-'' # str_of_nat (nat (- i)) else str_of_nat (nat i))"
| "py_str (PStr s) = s"

subsection \<open>\<open>int\<close> on a string\<close>

text \<open>
  \<open>int(s)\<close> works in two steps, both written out here as CPython 3.11 performs them.
  A string that is not pure ASCII is first rewritten character by character: a
  character below U+007F stays, a Unicode white-space character becomes a space, a
  Unicode decimal digit becomes the ASCII digit of its value, and at any other character
  the rewriting puts \<open>?\<close> and stops. The result is then read as a base-10 literal.

  The rewriting looks at code points, so the bytes of a character are decoded first:
  \<open>utf8_head b bs\<close> is the code point that starts with the byte \<open>b\<close>, with the number
  of bytes it takes from \<open>bs\<close>. Bytes that are not the UTF-8 encoding of a code point
  stand for no character of a Python string; they are treated like a character that is
  neither a space nor a digit.
\<close>

definition utf8_head :: "nat \<Rightarrow> nat list \<Rightarrow> (nat \<times> nat) option" where
  "utf8_head b bs =
     (let n = (if b < 128 then 0 else if 192 \<le> b \<and> b < 224 then 1
               else if 224 \<le> b \<and> b < 240 then 2 else if 240 \<le> b \<and> b < 248 then 3
               else 4);
          lead = (if n = 0 then b else if n = 1 then b - 192 else if n = 2 then b - 224
                  else b - 240);
          least = (if n = 0 then 0 else if n = 1 then 0x80 else if n = 2 then 0x800
                   else 0x10000);
          cont = take n bs;
          cp = foldl (\<lambda>a c. a * 64 + (c - 128)) lead cont
      in if n < 4 \<and> length cont = n \<and> list_all (\<lambda>c. 128 \<le> c \<and> c < 192) cont
            \<and> least \<le> cp \<and> cp < 0x110000 \<and> \<not> (0xD800 \<le> cp \<and> cp < 0xE000)
         then Some (cp, n)
         else None)"

text \<open>The white-space characters from U+007F on, and the code points of the digit
  zero of every script with decimal digits (Unicode 14.0, the database of CPython
  3.11); the digits 1 to 9 of a script follow its zero.\<close>

definition uni_space :: "nat \<Rightarrow> bool" where
  "uni_space cp =
     (cp \<in> {0x85, 0xA0, 0x1680, 0x2028, 0x2029, 0x202F, 0x205F, 0x3000}
      \<or> (0x2000 \<le> cp \<and> cp \<le> 0x200A))"

definition uni_zero_digits :: "nat list" where
  "uni_zero_digits =
     [0x660, 0x6F0, 0x7C0, 0x966, 0x9E6, 0xA66, 0xAE6, 0xB66, 0xBE6, 0xC66, 0xCE6, 0xD66,
      0xDE6, 0xE50, 0xED0, 0xF20, 0x1040, 0x1090, 0x17E0, 0x1810, 0x1946, 0x19D0, 0x1A80,
      0x1A90, 0x1B50, 0x1BB0, 0x1C40, 0x1C50, 0xA620, 0xA8D0, 0xA900, 0xA9D0, 0xA9F0,
      0xAA50, 0xABF0, 0xFF10, 0x104A0, 0x10D30, 0x11066, 0x110F0, 0x11136, 0x111D0,
      0x112F0, 0x11450, 0x114D0, 0x11650, 0x116C0, 0x11730, 0x118E0, 0x11950, 0x11C50,
      0x11D50, 0x11DA0, 0x16A60, 0x16AC0, 0x16B50, 0x1D7CE, 0x1D7D8, 0x1D7E2, 0x1D7EC,
      0x1D7F6, 0x1E140, 0x1E2F0, 0x1E950, 0x1FBF0]"

definition uni_decimal :: "nat \<Rightarrow> nat option" where
  "uni_decimal cp =
     (case filter (\<lambda>z. z \<le> cp \<and> cp < z + 10) uni_zero_digits of
        [] \<Rightarrow> None
      | z # _ \<Rightarrow> Some (cp - z))"

definition ascii_digit :: "nat \<Rightarrow> char" where
  "ascii_digit d = (case drop d ''0123456789'' of c # _ \<Rightarrow> c | [] \<Rightarrow> CHR ''?'')"

function transform_chars :: "string \<Rightarrow> string" where
  "transform_chars [] = []"
| "transform_chars (b # bs) =
     (if (of_char b :: nat) < 127 then b # transform_chars bs
      else (case utf8_head (of_char b) (map of_char bs) of
              None \<Rightarrow> [CHR ''?'']
            | Some (cp, n) \<Rightarrow>
                if uni_space cp then CHR '' '' # transform_chars (drop n bs)
                else (case uni_decimal cp of
                        Some d \<Rightarrow> ascii_digit d # transform_chars (drop n bs)
                      | None \<Rightarrow> [CHR ''?''])))"
  by pat_completeness auto
termination
  by (relation "measure length") auto

definition transform_decimal_and_space :: "string \<Rightarrow> string" where
  "transform_decimal_and_space s =
     (if list_all (\<lambda>c. (of_char c :: nat) < 128) s then s else transform_chars s)"

text \<open>
  The base-10 literal: white space around it is dropped, one sign is allowed, and the
  digits may be grouped by single underscores that stand between two digits. Anything
  else, the empty string included, raises \<open>ValueError\<close>, and so does a literal of more
  than \<open>int_max_str_digits\<close> digits (4300 unless the interpreter is told otherwise).
\<close>

definition int_max_str_digits :: nat where
  "int_max_str_digits = 4300"

fun decimal :: "nat \<Rightarrow> string \<Rightarrow> nat" where
  "decimal acc [] = acc"
| "decimal acc (c # cs) = decimal (10 * acc + digit_val c) cs"

fun underscores_ok :: "string \<Rightarrow> bool" where
  "underscores_ok [] = False"
| "underscores_ok [c] = is_digit c"
| "underscores_ok (c # d # cs) =
     (if is_digit c then underscores_ok (d # cs)
      else is_digit d \<and> underscores_ok (d # cs))"

definition long_from_string :: "string \<Rightarrow> py_error + int" where
  "long_from_string s =
     (let t = dropWhile is_space s;
          neg = (case t of c # _ \<Rightarrow> c = CHR ''-'' | [] \<Rightarrow> False);
          u = (case t of c # r \<Rightarrow> if c = CHR ''-'' \<or> c = CHR ''+'' then r else t | [] \<Rightarrow> t);
          body = takeWhile (\<lambda>c. is_digit c \<or> c = CHR ''_'') u;
          rest = dropWhile (\<lambda>c. is_digit c \<or> c = CHR ''_'') u
      in if (case body of c # _ \<Rightarrow> is_digit c | [] \<Rightarrow> False) \<and> underscores_ok body
              \<and> length (filter is_digit body) \<le> int_max_str_digits
              \<and> list_all is_space rest
         then Inr ((if neg then - 1 else 1) * int (decimal 0 (filter is_digit body)))
         else Inl ValueError)"

definition py_int_str :: "string \<Rightarrow> py_error + int" where
  "py_int_str s = long_from_string (transform_decimal_and_space s)"

text \<open>\<open>int(v)\<close>: an integer is returned as it is, \<open>None\<close> raises \<open>TypeError\<close>.\<close>

fun py_int :: "pyval \<Rightarrow> py_error + int" where
  "py_int PNone = Inl TypeError"
| "py_int (PInt i) = Inr i"
| "py_int (PStr s) = py_int_str s"

section \<open>Price normalizer (\<open>seller.price_conversion\<close>)\<close>

text \<open>\<open>s.split(sep)\<close> for a one-character separator: never an empty list.\<close>

fun split_on :: "char \<Rightarrow> string \<Rightarrow> string list" where
  "split_on sep [] = [[]]"
| "split_on sep (c # cs) =
     (if c = sep then [] # split_on sep cs
      else (case split_on sep cs of
              [] \<Rightarrow> [[c]]
            | w # ws \<Rightarrow> (c # w) # ws))"

text \<open>\<open>re.sub("[^0-9]", "", s)\<close>: every character outside \<open>0\<close>..\<open>9\<close> is deleted.\<close>

definition re_sub_non_digits :: "string \<Rightarrow> string" where
  "re_sub_non_digits s = filter is_digit s"

text \<open>\<open>return re.sub("[^0-9]", "", price.split(".")[0])\<close>; the index \<open>[0]\<close> raises
  \<open>IndexError\<close> on an empty list.\<close>

definition price_conversion :: "string \<Rightarrow> py_error + string" where
  "price_conversion price =
     (case split_on CHR ''.'' price of
        [] \<Rightarrow> Inl IndexError
      | p # _ \<Rightarrow> Inr (re_sub_non_digits p))"

text \<open>The call made by the price reconcilers hands over a feed cell: \<open>None\<close> and an
  integer have no \<open>split\<close> method, which raises \<open>AttributeError\<close>.\<close>

fun price_conversion_cell :: "pyval \<Rightarrow> py_error + string" where
  "price_conversion_cell (PStr s) = price_conversion s"
| "price_conversion_cell PNone = Inl AttributeError"
| "price_conversion_cell (PInt i) = Inl AttributeError"

section \<open>Chunker (\<open>seller.divide\<close>)\<close>

text \<open>\<open>range(start, stop, step)\<close>: a zero step raises \<open>ValueError\<close>, a positive step counts
  up while below \<open>stop\<close>, a negative step counts down while above \<open>stop\<close>.\<close>

function range_up :: "int \<Rightarrow> int \<Rightarrow> int \<Rightarrow> int list" where
  "range_up i stop step =
     (if 0 < step \<and> i < stop then i # range_up (i + step) stop step else [])"
  by pat_completeness auto
termination
  by (relation "measure (\<lambda>(i, stop, step). nat (stop - i))") auto

function range_down :: "int \<Rightarrow> int \<Rightarrow> int \<Rightarrow> int list" where
  "range_down i stop step =
     (if step < 0 \<and> stop < i then i # range_down (i + step) stop step else [])"
  by pat_completeness auto
termination
  by (relation "measure (\<lambda>(i, stop, step). nat (i - stop))") auto

definition py_range :: "int \<Rightarrow> int \<Rightarrow> int \<Rightarrow> py_error + int list" where
  "py_range start stop step =
     (if step = 0 then Inl ValueError
      else if 0 < step then Inr (range_up start stop step)
      else Inr (range_down start stop step))"

text \<open>\<open>lst[a:b]\<close>: a negative bound counts from the end, and both bounds are clipped to
  the list.\<close>

definition py_slice :: "'a list \<Rightarrow> int \<Rightarrow> int \<Rightarrow> 'a list" where
  "py_slice lst a b =
     (let len = int (length lst);
          clip = (\<lambda>k. if k < 0 then max 0 (k + len) else min k len);
          lo = clip a; hi = clip b
      in take (nat (hi - lo)) (drop (nat lo) lst))"

text \<open>
  \<open>for i in range(0, len(lst), n): yield lst[i : i + n]\<close>. The generator is always
  consumed at once by \<open>list(divide(..))\<close>, so the model returns the list of chunks, or the
  error that the first \<open>next\<close> raises.
  The function is called \<open>divide_lst\<close> here, \<open>divide\<close> being the division of HOL.
\<close>

definition divide_lst :: "'a list \<Rightarrow> int \<Rightarrow> py_error + 'a list list" where
  "divide_lst lst n =
     (case py_range 0 (int (length lst)) n of
        Inl e \<Rightarrow> Inl e
      | Inr idx \<Rightarrow> Inr (map (\<lambda>i. py_slice lst i (i + n)) idx))"

section \<open>Inventory records and payloads\<close>

text \<open>One row of the feed: the cells under the headers \<open>Kod\<close> (code), \<open>Kolichestvo\<close>
  (quantity) and \<open>Tsena\<close> (price), each read with \<open>watch.get(..)\<close>.\<close>

record watch =
  Kod :: pyval
  Kolichestvo :: pyval
  Tsena :: pyval

record ozon_stock =
  offer_id :: string
  stock :: int

record ozon_price =
  auto_action_enabled :: string
  currency_code :: string
  price_offer_id :: string
  old_price :: string
  price :: string

record market_item =
  item_count :: int
  item_type :: string
  updatedAt :: string

record market_stock =
  sku :: string
  warehouseId :: string
  items :: "market_item list"

record market_money =
  money_value :: int
  currencyId :: string

record market_price =
  price_id :: string
  price_money :: market_money

section \<open>Stock reconcilers\<close>

text \<open>
  \<open>seller.create_stocks\<close>. The first loop scans the feed; \<open>offer_ids.remove(..)\<close> deletes
  the first occurrence of the matched code from the caller's list. The second loop adds
  a zero entry for every offer id that is left. The function returns the stock list; the
  second component is the caller's \<open>offer_ids\<close> list as the call leaves it.
\<close>

fun scan_stocks ::
  "watch list \<Rightarrow> ozon_stock list \<Rightarrow> string list \<Rightarrow> py_error + (ozon_stock list \<times> string list)"
where
  "scan_stocks [] stocks offer_ids = Inr (stocks, offer_ids)"
| "scan_stocks (w # rest) stocks offer_ids =
     (if py_str (Kod w) \<in> set offer_ids then
        (let count = py_str (Kolichestvo w) in
         case (if count = ''>10'' then Inr 100
               else if count = ''1'' then Inr 0
               else py_int (Kolichestvo w)) of
           Inl e \<Rightarrow> Inl e
         | Inr st \<Rightarrow>
             scan_stocks rest
               (stocks @ [\<lparr>offer_id = py_str (Kod w), stock = st\<rparr>])
               (remove1 (py_str (Kod w)) offer_ids))
      else scan_stocks rest stocks offer_ids)"

definition create_stocks ::
  "watch list \<Rightarrow> string list \<Rightarrow> py_error + (ozon_stock list \<times> string list)"
where
  "create_stocks watch_remnants offer_ids =
     (case scan_stocks watch_remnants [] offer_ids of
        Inl e \<Rightarrow> Inl e
      | Inr (stocks, left) \<Rightarrow>
          Inr (stocks @ map (\<lambda>i. \<lparr>offer_id = i, stock = 0\<rparr>) left, left))"

text \<open>
  \<open>market.create_stocks\<close>: the same scan; every entry carries the warehouse id and the
  time stamp \<open>date\<close>, read from the clock once before the loop.
\<close>

fun market_scan_stocks ::
  "string \<Rightarrow> string \<Rightarrow> watch list \<Rightarrow> market_stock list \<Rightarrow> string list
     \<Rightarrow> py_error + (market_stock list \<times> string list)"
where
  "market_scan_stocks warehouse_id date [] stocks offer_ids = Inr (stocks, offer_ids)"
| "market_scan_stocks warehouse_id date (w # rest) stocks offer_ids =
     (if py_str (Kod w) \<in> set offer_ids then
        (let count = py_str (Kolichestvo w) in
         case (if count = ''>10'' then Inr 100
               else if count = ''1'' then Inr 0
               else py_int (Kolichestvo w)) of
           Inl e \<Rightarrow> Inl e
         | Inr st \<Rightarrow>
             market_scan_stocks warehouse_id date rest
               (stocks @ [\<lparr>sku = py_str (Kod w), warehouseId = warehouse_id,
                           items = [\<lparr>item_count = st, item_type = ''FIT'',
                                     updatedAt = date\<rparr>]\<rparr>])
               (remove1 (py_str (Kod w)) offer_ids))
      else market_scan_stocks warehouse_id date rest stocks offer_ids)"

definition market_create_stocks ::
  "string \<Rightarrow> watch list \<Rightarrow> string list \<Rightarrow> string
     \<Rightarrow> py_error + (market_stock list \<times> string list)"
where
  "market_create_stocks date watch_remnants offer_ids warehouse_id =
     (case market_scan_stocks warehouse_id date watch_remnants [] offer_ids of
        Inl e \<Rightarrow> Inl e
      | Inr (stocks, left) \<Rightarrow>
          Inr (stocks @ map (\<lambda>i. \<lparr>sku = i, warehouseId = warehouse_id,
                                   items = [\<lparr>item_count = 0, item_type = ''FIT'',
                                             updatedAt = date\<rparr>]\<rparr>) left,
               left))"

section \<open>Price reconcilers\<close>

text \<open>\<open>seller.create_prices\<close> and \<open>market.create_prices\<close>. The offer-id list is only
  read; it is threaded through the scan so that the frame property can be stated.\<close>

fun scan_prices ::
  "watch list \<Rightarrow> ozon_price list \<Rightarrow> string list \<Rightarrow> py_error + (ozon_price list \<times> string list)"
where
  "scan_prices [] prices offer_ids = Inr (prices, offer_ids)"
| "scan_prices (w # rest) prices offer_ids =
     (if py_str (Kod w) \<in> set offer_ids then
        (case price_conversion_cell (Tsena w) of
           Inl e \<Rightarrow> Inl e
         | Inr p \<Rightarrow>
             scan_prices rest
               (prices @ [\<lparr>auto_action_enabled = ''UNKNOWN'', currency_code = ''RUB'',
                           price_offer_id = py_str (Kod w), old_price = ''0'', price = p\<rparr>])
               offer_ids)
      else scan_prices rest prices offer_ids)"

definition create_prices ::
  "watch list \<Rightarrow> string list \<Rightarrow> py_error + (ozon_price list \<times> string list)"
where
  "create_prices watch_remnants offer_ids = scan_prices watch_remnants [] offer_ids"

fun market_scan_prices ::
  "watch list \<Rightarrow> market_price list \<Rightarrow> string list
     \<Rightarrow> py_error + (market_price list \<times> string list)"
where
  "market_scan_prices [] prices offer_ids = Inr (prices, offer_ids)"
| "market_scan_prices (w # rest) prices offer_ids =
     (if py_str (Kod w) \<in> set offer_ids then
        (case price_conversion_cell (Tsena w) of
           Inl e \<Rightarrow> Inl e
         | Inr p \<Rightarrow>
             (case py_int_str p of
                Inl e \<Rightarrow> Inl e
              | Inr v \<Rightarrow>
                  market_scan_prices rest
                    (prices @ [\<lparr>price_id = py_str (Kod w),
                                price_money = \<lparr>money_value = v, currencyId = ''RUR''\<rparr>\<rparr>])
                    offer_ids))
      else market_scan_prices rest prices offer_ids)"

definition market_create_prices ::
  "watch list \<Rightarrow> string list \<Rightarrow> py_error + (market_price list \<times> string list)"
where
  "market_create_prices watch_remnants offer_ids =
     market_scan_prices watch_remnants [] offer_ids"

section \<open>Specification-level notions used to state the properties\<close>

text \<open>The resolution rule of the stock reconciler as the specification words it:
  \<open>">10"\<close> gives 100, \<open>"1"\<close> gives 0, any other token is parsed as an integer.\<close>

definition resolved_stock :: "pyval \<Rightarrow> py_error + int" where
  "resolved_stock q =
     (if py_str q = ''>10'' then Inr 100 else if py_str q = ''1'' then Inr 0 else py_int q)"

text \<open>The records that are the first of their code in scan order (\<open>seen\<close> holds the
  codes met so far).\<close>

fun first_by_code :: "string list \<Rightarrow> watch list \<Rightarrow> watch list" where
  "first_by_code seen [] = []"
| "first_by_code seen (w # ws) =
     (if py_str (Kod w) \<in> set seen then first_by_code seen ws
      else w # first_by_code (py_str (Kod w) # seen) ws)"

text \<open>The working set of offer ids when the records \<open>ws\<close> have been scanned: each
  record whose code is in the list takes one occurrence of it away.\<close>

fun working_set :: "watch list \<Rightarrow> string list \<Rightarrow> string list" where
  "working_set [] ids = ids"
| "working_set (w # ws) ids =
     working_set ws
       (if py_str (Kod w) \<in> set ids then remove1 (py_str (Kod w)) ids else ids)"

text \<open>A stock entry is the resolution of a feed record.\<close>

definition resolves_to :: "watch \<Rightarrow> ozon_stock \<Rightarrow> bool" where
  "resolves_to w e =
     (offer_id e = py_str (Kod w) \<and> resolved_stock (Kolichestvo w) = Inr (stock e))"

text \<open>A price entry is the entry the price reconciler builds for a feed record.\<close>

definition ozon_price_of :: "watch \<Rightarrow> ozon_price \<Rightarrow> bool" where
  "ozon_price_of w p =
     (price_conversion_cell (Tsena w) = Inr (price p) \<and> price_offer_id p = py_str (Kod w)
      \<and> auto_action_enabled p = ''UNKNOWN'' \<and> currency_code p = ''RUB''
      \<and> old_price p = ''0'')"

definition market_price_of :: "watch \<Rightarrow> market_price \<Rightarrow> bool" where
  "market_price_of w p =
     (price_id p = py_str (Kod w) \<and> currencyId (price_money p) = ''RUR''
      \<and> (case price_conversion_cell (Tsena w) of
            Inl e \<Rightarrow> False
          | Inr d \<Rightarrow> py_int_str d = Inr (money_value (price_money p))))"

text \<open>The currency suffix of the documented examples, \<open>rub\<close> in Cyrillic letters
  (U+0440, U+0443, U+0431), as UTF-8 bytes.\<close>

definition rub :: string where
  "rub = [CHR 0xD1, CHR 0x80, CHR 0xD1, CHR 0x83, CHR 0xD0, CHR 0xB1]"

section \<open>A small run: the end-to-end scenario of the specification\<close>

definition demo_a1 :: watch where
  "demo_a1 = \<lparr>Kod = PStr ''A1'', Kolichestvo = PStr ''>10'', Tsena = PStr ''100.00 r''\<rparr>"

definition demo_b2 :: watch where
  "demo_b2 = \<lparr>Kod = PStr ''B2'', Kolichestvo = PStr ''1'', Tsena = PStr ''200.00 r''\<rparr>"

definition demo_feed :: "watch list" where
  "demo_feed = [demo_a1, demo_b2]"

text \<open>Two more records for the third known offer id: an exact count, and a quantity
  that is neither a sentinel nor a number.\<close>

definition demo_exact :: watch where
  "demo_exact = \<lparr>Kod = PStr ''C3'', Kolichestvo = PStr ''7'', Tsena = PStr ''300.00 r''\<rparr>"

definition demo_malformed :: watch where
  "demo_malformed = \<lparr>Kod = PStr ''C3'', Kolichestvo = PStr ''many'', Tsena = PStr ''300.00 r''\<rparr>"

text \<open>A second record of the first code, for a catalog that lists this offer id
  twice.\<close>

definition demo_again :: watch where
  "demo_again = \<lparr>Kod = PStr ''A1'', Kolichestvo = PStr ''5'', Tsena = PStr ''100.00 r''\<rparr>"

definition demo_offer_ids :: "string list" where
  "demo_offer_ids = [''A1'', ''B2'', ''C3'']"

definition demo_stocks :: "ozon_stock list" where
  "demo_stocks =
     [\<lparr>offer_id = ''A1'', stock = 100\<rparr>, \<lparr>offer_id = ''B2'', stock = 0\<rparr>,
      \<lparr>offer_id = ''C3'', stock = 0\<rparr>]"

definition demo_date :: string where
  "demo_date = ''2024-03-12T10:00:00Z''"

definition demo_market_stocks :: "market_stock list" where
  "demo_market_stocks =
     [\<lparr>sku = ''A1'', warehouseId = ''VB21'',
       items = [\<lparr>item_count = 100, item_type = ''FIT'', updatedAt = demo_date\<rparr>]\<rparr>,
      \<lparr>sku = ''B2'', warehouseId = ''VB21'',
       items = [\<lparr>item_count = 0, item_type = ''FIT'', updatedAt = demo_date\<rparr>]\<rparr>,
      \<lparr>sku = ''C3'', warehouseId = ''VB21'',
       items = [\<lparr>item_count = 0, item_type = ''FIT'', updatedAt = demo_date\<rparr>]\<rparr>]"

definition demo_prices :: "ozon_price list" where
  "demo_prices =
     [\<lparr>auto_action_enabled = ''UNKNOWN'', currency_code = ''RUB'', price_offer_id = ''A1'',
       old_price = ''0'', price = ''100''\<rparr>,
      \<lparr>auto_action_enabled = ''UNKNOWN'', currency_code = ''RUB'', price_offer_id = ''B2'',
       old_price = ''0'', price = ''200''\<rparr>]"

definition demo_market_prices :: "market_price list" where
  "demo_market_prices =
     [\<lparr>price_id = ''A1'', price_money = \<lparr>money_value = 100, currencyId = ''RUR''\<rparr>\<rparr>,
      \<lparr>price_id = ''B2'', price_money = \<lparr>money_value = 200, currencyId = ''RUR''\<rparr>\<rparr>]"

text \<open>A record of a known offer id whose price has no digit before the first period.\<close>

definition demo_unpriced :: watch where
  "demo_unpriced = \<lparr>Kod = PStr ''C3'', Kolichestvo = PStr ''2'', Tsena = PStr ''n/a''\<rparr>"

section \<open>The marketplace APIs as seen by the scripts\<close>

text \<open>
  Every HTTP call is recorded in a log, in the order the calls are made. The other side
  is a function from the log, the call being answered included as its last element, to
  the reply: the reply to a call may depend on everything sent so far. A reply is the
  decoded body, or the exception that \<open>requests\<close> or \<open>raise_for_status\<close> raises.
  Credentials are the same in all calls of one script and are left out.
\<close>

datatype outcome = Completed | Reported py_error | Crashed py_error

subsection \<open>First marketplace (\<open>seller.py\<close>)\<close>

record product =
  product_id :: int
  product_offer_id :: string

text \<open>The \<open>result\<close> object of the listing endpoint: \<open>items\<close>, \<open>total\<close>, \<open>last_id\<close>.\<close>

record listing =
  listing_items :: "product list"
  listing_total :: int
  listing_last_id :: string

datatype request =
    ProductList string
  | DownloadStock
  | ImportStocks "ozon_stock list"
  | ImportPrices "ozon_price list"

record net =
  list_reply :: "request list \<Rightarrow> py_error + listing"
  feed_reply :: "request list \<Rightarrow> py_error + watch list"
  import_reply :: "request list \<Rightarrow> py_error option"

definition get_product_list ::
  "net \<Rightarrow> string \<Rightarrow> request list \<Rightarrow> (py_error + listing) \<times> request list"
where
  "get_product_list nt lid log = (list_reply nt (log @ [ProductList lid]), log @ [ProductList lid])"

text \<open>
  The \<open>while True\<close> loop of \<open>seller.get_offer_ids\<close>: fetch a page, extend the product
  list, leave the loop when the reported total equals the number of products held. The
  loop need not end, so the result is an option: \<open>None\<close> is a run that never returns.
\<close>

partial_function (option) fetch_pages ::
  "net \<Rightarrow> string \<Rightarrow> product list \<Rightarrow> request list
     \<Rightarrow> ((py_error + product list) \<times> request list) option"
where
  "fetch_pages nt lid product_list log =
     (case get_product_list nt lid log of
        (Inl e, log') \<Rightarrow> Some (Inl e, log')
      | (Inr some_prod, log') \<Rightarrow>
          if listing_total some_prod = int (length (product_list @ listing_items some_prod))
          then Some (Inr (product_list @ listing_items some_prod), log')
          else fetch_pages nt (listing_last_id some_prod)
                 (product_list @ listing_items some_prod) log')"

declare fetch_pages.simps [code]

definition get_offer_ids ::
  "net \<Rightarrow> request list \<Rightarrow> ((py_error + string list) \<times> request list) option"
where
  "get_offer_ids nt log =
     (case fetch_pages nt [] [] log of
        None \<Rightarrow> None
      | Some (Inl e, log') \<Rightarrow> Some (Inl e, log')
      | Some (Inr product_list, log') \<Rightarrow> Some (Inr (map product_offer_id product_list), log'))"

definition update_price ::
  "net \<Rightarrow> ozon_price list \<Rightarrow> request list \<Rightarrow> py_error option \<times> request list"
where
  "update_price nt prices log = (import_reply nt (log @ [ImportPrices prices]), log @ [ImportPrices prices])"

definition update_stocks ::
  "net \<Rightarrow> ozon_stock list \<Rightarrow> request list \<Rightarrow> py_error option \<times> request list"
where
  "update_stocks nt stocks log = (import_reply nt (log @ [ImportStocks stocks]), log @ [ImportStocks stocks])"

definition download_stock ::
  "net \<Rightarrow> request list \<Rightarrow> (py_error + watch list) \<times> request list"
where
  "download_stock nt log = (feed_reply nt (log @ [DownloadStock]), log @ [DownloadStock])"

text \<open>\<open>for chunk in chunks: call(chunk)\<close>: the first call that raises ends the loop.\<close>

fun for_each ::
  "('c \<Rightarrow> 'q list \<Rightarrow> py_error option \<times> 'q list) \<Rightarrow> 'c list \<Rightarrow> 'q list
     \<Rightarrow> py_error option \<times> 'q list"
where
  "for_each call [] log = (None, log)"
| "for_each call (c # cs) log =
     (case call c log of
        (Some e, log') \<Rightarrow> (Some e, log')
      | (None, log') \<Rightarrow> for_each call cs log')"

text \<open>
  \<open>seller.main\<close>. Everything after reading the environment is inside \<open>try\<close>, and each
  \<open>except\<close> clause prints and returns, so an exception ends the run as \<open>Reported\<close>.
  The list \<open>offer_ids\<close> handed to \<open>create_prices\<close> is the object \<open>create_stocks\<close> has
  worked on.
\<close>

definition seller_main :: "net \<Rightarrow> (outcome \<times> request list) option" where
  "seller_main nt =
     (case get_offer_ids nt [] of
        None \<Rightarrow> None
      | Some (Inl e, log1) \<Rightarrow> Some (Reported e, log1)
      | Some (Inr offer_ids, log1) \<Rightarrow>
          (case download_stock nt log1 of
             (Inl e, log2) \<Rightarrow> Some (Reported e, log2)
           | (Inr watch_remnants, log2) \<Rightarrow>
               (case create_stocks watch_remnants offer_ids of
                  Inl e \<Rightarrow> Some (Reported e, log2)
                | Inr (stocks, offer_ids') \<Rightarrow>
                    (case divide_lst stocks 100 of
                       Inl e \<Rightarrow> Some (Reported e, log2)
                     | Inr stock_chunks \<Rightarrow>
                         (case for_each (update_stocks nt) stock_chunks log2 of
                            (Some e, log3) \<Rightarrow> Some (Reported e, log3)
                          | (None, log3) \<Rightarrow>
                              (case create_prices watch_remnants offer_ids' of
                                 Inl e \<Rightarrow> Some (Reported e, log3)
                               | Inr (prices, offer_ids'') \<Rightarrow>
                                   (case divide_lst prices 900 of
                                      Inl e \<Rightarrow> Some (Reported e, log3)
                                    | Inr price_chunks \<Rightarrow>
                                        (case for_each (update_price nt) price_chunks log3 of
                                           (Some e, log4) \<Rightarrow> Some (Reported e, log4)
                                         | (None, log4) \<Rightarrow> Some (Completed, log4)))))))))"

text \<open>A catalog of three offers served in one page, the feed of the scenario, and
  import endpoints that accept everything.\<close>

definition demo_net :: net where
  "demo_net =
     \<lparr>list_reply = (\<lambda>log. Inr \<lparr>listing_items =
                                   [\<lparr>product_id = 1, product_offer_id = ''A1''\<rparr>,
                                    \<lparr>product_id = 2, product_offer_id = ''B2''\<rparr>,
                                    \<lparr>product_id = 3, product_offer_id = ''C3''\<rparr>],
                                 listing_total = 3, listing_last_id = ''3''\<rparr>),
      feed_reply = (\<lambda>log. Inr demo_feed),
      import_reply = (\<lambda>log. None)\<rparr>"

text \<open>A listing endpoint that serves two products per page and always reports a total
  of three: the number of products held is 2, 4, 6, .. and never equals the total.\<close>

definition odd_total_net :: net where
  "odd_total_net =
     \<lparr>list_reply = (\<lambda>log. Inr \<lparr>listing_items =
                                   [\<lparr>product_id = 1, product_offer_id = ''A1''\<rparr>,
                                    \<lparr>product_id = 2, product_offer_id = ''B2''\<rparr>],
                                 listing_total = 3, listing_last_id = ''2''\<rparr>),
      feed_reply = (\<lambda>log. Inr demo_feed),
      import_reply = (\<lambda>log. None)\<rparr>"

subsection \<open>The conversation with the listing endpoint, page by page\<close>

text \<open>
  The state of the pagination loop is the log, the cursor and the products held.
  \<open>next_page\<close> is one request and the extension of the product list, without the exit
  test; \<open>crawl n\<close> is \<open>n\<close> such pages in a row. \<open>page_completes\<close> says that the next page
  ends with the reported total equal to the number of products then held, and
  \<open>completes n\<close> that this happens at the page after the first \<open>n\<close> ones.
\<close>

type_synonym crawl_state = "request list \<times> string \<times> product list"

definition next_page :: "net \<Rightarrow> crawl_state \<Rightarrow> py_error + (int \<times> crawl_state)" where
  "next_page nt st =
     (case st of (log, lid, product_list) \<Rightarrow>
        (case get_product_list nt lid log of
           (Inl e, log') \<Rightarrow> Inl e
         | (Inr some_prod, log') \<Rightarrow>
             Inr (listing_total some_prod,
                  (log', listing_last_id some_prod, product_list @ listing_items some_prod))))"

fun crawl :: "net \<Rightarrow> nat \<Rightarrow> crawl_state \<Rightarrow> py_error + crawl_state" where
  "crawl nt 0 st = Inr st"
| "crawl nt (Suc n) st =
     (case next_page nt st of
        Inl e \<Rightarrow> Inl e
      | Inr (t, st') \<Rightarrow> crawl nt n st')"

definition page_completes :: "net \<Rightarrow> crawl_state \<Rightarrow> bool" where
  "page_completes nt st =
     (case next_page nt st of
        Inl e \<Rightarrow> False
      | Inr (t, (log, lid, product_list)) \<Rightarrow> t = int (length product_list))"

definition completes :: "net \<Rightarrow> crawl_state \<Rightarrow> nat \<Rightarrow> bool" where
  "completes nt st n =
     (case crawl nt n st of
        Inl e \<Rightarrow> False
      | Inr st' \<Rightarrow> page_completes nt st')"

definition answered :: "net \<Rightarrow> crawl_state \<Rightarrow> nat \<Rightarrow> bool" where
  "answered nt st n = (case crawl nt n st of Inl e \<Rightarrow> False | Inr st' \<Rightarrow> True)"

subsection \<open>Second marketplace (\<open>market.py\<close>)\<close>

record market_offer =
  shopSku :: string

text \<open>The \<open>result\<close> object of the offer-mapping endpoint; \<open>nextPageToken\<close> may be
  absent.\<close>

record market_listing =
  offerMappingEntries :: "market_offer list"
  nextPageToken :: "string option"

text \<open>Each call of this marketplace names the campaign (the channel) it is for.\<close>

datatype market_request =
    OfferMappingEntries string string
  | MarketDownloadStock
  | PutStocks string "market_stock list"
  | PostPrices string "market_price list"

record market_net =
  market_list_reply :: "market_request list \<Rightarrow> py_error + market_listing"
  market_feed_reply :: "market_request list \<Rightarrow> py_error + watch list"
  market_update_reply :: "market_request list \<Rightarrow> py_error option"
  utcnow :: "market_request list \<Rightarrow> string"

definition market_get_product_list ::
  "market_net \<Rightarrow> string \<Rightarrow> string \<Rightarrow> market_request list
     \<Rightarrow> (py_error + market_listing) \<times> market_request list"
where
  "market_get_product_list mnt page campaign_id log =
     (market_list_reply mnt (log @ [OfferMappingEntries campaign_id page]),
      log @ [OfferMappingEntries campaign_id page])"

text \<open>The loop of \<open>market.get_offer_ids\<close> ends at an absent or empty next-page token.\<close>

partial_function (option) market_fetch_pages ::
  "market_net \<Rightarrow> string \<Rightarrow> string \<Rightarrow> market_offer list \<Rightarrow> market_request list
     \<Rightarrow> ((py_error + market_offer list) \<times> market_request list) option"
where
  "market_fetch_pages mnt campaign_id page product_list log =
     (case market_get_product_list mnt page campaign_id log of
        (Inl e, log') \<Rightarrow> Some (Inl e, log')
      | (Inr some_prod, log') \<Rightarrow>
          (case nextPageToken some_prod of
             None \<Rightarrow> Some (Inr (product_list @ offerMappingEntries some_prod), log')
           | Some tok \<Rightarrow>
               if tok = [] then Some (Inr (product_list @ offerMappingEntries some_prod), log')
               else market_fetch_pages mnt campaign_id tok
                      (product_list @ offerMappingEntries some_prod) log'))"

declare market_fetch_pages.simps [code]

definition market_get_offer_ids ::
  "market_net \<Rightarrow> string \<Rightarrow> market_request list
     \<Rightarrow> ((py_error + string list) \<times> market_request list) option"
where
  "market_get_offer_ids mnt campaign_id log =
     (case market_fetch_pages mnt campaign_id [] [] log of
        None \<Rightarrow> None
      | Some (Inl e, log') \<Rightarrow> Some (Inl e, log')
      | Some (Inr product_list, log') \<Rightarrow> Some (Inr (map shopSku product_list), log'))"

definition market_update_stocks ::
  "market_net \<Rightarrow> string \<Rightarrow> market_stock list \<Rightarrow> market_request list
     \<Rightarrow> py_error option \<times> market_request list"
where
  "market_update_stocks mnt campaign_id stocks log =
     (market_update_reply mnt (log @ [PutStocks campaign_id stocks]),
      log @ [PutStocks campaign_id stocks])"

definition market_update_price ::
  "market_net \<Rightarrow> string \<Rightarrow> market_price list \<Rightarrow> market_request list
     \<Rightarrow> py_error option \<times> market_request list"
where
  "market_update_price mnt campaign_id prices log =
     (market_update_reply mnt (log @ [PostPrices campaign_id prices]),
      log @ [PostPrices campaign_id prices])"

definition market_download_stock ::
  "market_net \<Rightarrow> market_request list \<Rightarrow> (py_error + watch list) \<times> market_request list"
where
  "market_download_stock mnt log =
     (market_feed_reply mnt (log @ [MarketDownloadStock]), log @ [MarketDownloadStock])"

text \<open>
  \<open>upload_prices\<close> is declared \<open>async def\<close>: calling it builds a coroutine object and runs
  nothing of its body; the body runs when the coroutine is awaited or handed to an event
  loop. A coroutine is modelled by what its body would do to the log.
\<close>

datatype 'a coroutine = Coroutine "market_request list \<Rightarrow> ('a \<times> market_request list) option"

fun await :: "'a coroutine \<Rightarrow> market_request list \<Rightarrow> ('a \<times> market_request list) option" where
  "await (Coroutine body) log = body log"

definition market_upload_prices ::
  "market_net \<Rightarrow> watch list \<Rightarrow> string \<Rightarrow> (py_error + market_price list) coroutine"
where
  "market_upload_prices mnt watch_remnants campaign_id =
     Coroutine (\<lambda>log.
       case market_get_offer_ids mnt campaign_id log of
         None \<Rightarrow> None
       | Some (Inl e, log1) \<Rightarrow> Some (Inl e, log1)
       | Some (Inr offer_ids, log1) \<Rightarrow>
           (case market_create_prices watch_remnants offer_ids of
              Inl e \<Rightarrow> Some (Inl e, log1)
            | Inr (prices, offer_ids') \<Rightarrow>
                (case divide_lst prices 500 of
                   Inl e \<Rightarrow> Some (Inl e, log1)
                 | Inr chunks \<Rightarrow>
                     (case for_each (market_update_price mnt campaign_id) chunks log1 of
                        (Some e, log2) \<Rightarrow> Some (Inl e, log2)
                      | (None, log2) \<Rightarrow> Some (Inr prices, log2)))))"

text \<open>
  The block that \<open>market.main\<close> runs for a channel, written out there once for FBS and
  once for DBS: fetch the catalog, build the stocks, send them in chunks of 2000, then
  the statement \<open>upload_prices(watch_remnants, campaign_id, market_token)\<close>, a bare call
  whose coroutine is dropped. The result is the exception that ends the block, if any.
\<close>

definition market_channel ::
  "market_net \<Rightarrow> watch list \<Rightarrow> string \<Rightarrow> string \<Rightarrow> market_request list
     \<Rightarrow> (py_error option \<times> market_request list) option"
where
  "market_channel mnt watch_remnants campaign_id warehouse_id log =
     (case market_get_offer_ids mnt campaign_id log of
        None \<Rightarrow> None
      | Some (Inl e, log1) \<Rightarrow> Some (Some e, log1)
      | Some (Inr offer_ids, log1) \<Rightarrow>
          (case market_create_stocks (utcnow mnt log1) watch_remnants offer_ids warehouse_id of
             Inl e \<Rightarrow> Some (Some e, log1)
           | Inr (stocks, offer_ids') \<Rightarrow>
               (case divide_lst stocks 2000 of
                  Inl e \<Rightarrow> Some (Some e, log1)
                | Inr chunks \<Rightarrow>
                    (case for_each (market_update_stocks mnt campaign_id) chunks log1 of
                       (Some e, log2) \<Rightarrow> Some (Some e, log2)
                     | (None, log2) \<Rightarrow>
                         (case market_upload_prices mnt watch_remnants campaign_id of
                            Coroutine body \<Rightarrow> Some (None, log2))))))"

record market_config =
  campaign_fbs_id :: string
  campaign_dbs_id :: string
  warehouse_fbs_id :: string
  warehouse_dbs_id :: string

text \<open>\<open>market.main\<close>: the feed is downloaded before \<open>try\<close>, so its failure is not
  caught; the two channels share one \<open>try\<close>, so an exception in FBS skips DBS.\<close>

definition market_main :: "market_config \<Rightarrow> market_net \<Rightarrow> (outcome \<times> market_request list) option"
where
  "market_main cfg mnt =
     (case market_download_stock mnt [] of
        (Inl e, log0) \<Rightarrow> Some (Crashed e, log0)
      | (Inr watch_remnants, log0) \<Rightarrow>
          (case market_channel mnt watch_remnants (campaign_fbs_id cfg) (warehouse_fbs_id cfg)
                  log0 of
             None \<Rightarrow> None
           | Some (Some e, log1) \<Rightarrow> Some (Reported e, log1)
           | Some (None, log1) \<Rightarrow>
               (case market_channel mnt watch_remnants (campaign_dbs_id cfg)
                       (warehouse_dbs_id cfg) log1 of
                  None \<Rightarrow> None
                | Some (Some e, log2) \<Rightarrow> Some (Reported e, log2)
                | Some (None, log2) \<Rightarrow> Some (Completed, log2))))"

text \<open>Two channels with the catalog of the scenario, served in one page each.\<close>

definition demo_config :: market_config where
  "demo_config =
     \<lparr>campaign_fbs_id = ''FBS'', campaign_dbs_id = ''DBS'',
      warehouse_fbs_id = ''VB21'', warehouse_dbs_id = ''VB22''\<rparr>"

definition demo_market_net :: market_net where
  "demo_market_net =
     \<lparr>market_list_reply =
        (\<lambda>log. Inr \<lparr>offerMappingEntries =
                       [\<lparr>shopSku = ''A1''\<rparr>, \<lparr>shopSku = ''B2''\<rparr>, \<lparr>shopSku = ''C3''\<rparr>],
                     nextPageToken = None\<rparr>),
      market_feed_reply = (\<lambda>log. Inr demo_feed),
      market_update_reply = (\<lambda>log. None),
      utcnow = (\<lambda>log. demo_date)\<rparr>"

text \<open>A listing endpoint of the first marketplace that serves the catalog of the
  scenario in two pages: two products for the empty cursor, the third one for the
  cursor \<open>2\<close>, each time with the total of three.\<close>

definition paged_net :: net where
  "paged_net =
     \<lparr>list_reply =
        (\<lambda>log. if log \<noteq> [] \<and> last log = ProductList []
               then Inr \<lparr>listing_items = [\<lparr>product_id = 1, product_offer_id = ''A1''\<rparr>,
                                        \<lparr>product_id = 2, product_offer_id = ''B2''\<rparr>],
                         listing_total = 3, listing_last_id = ''2''\<rparr>
               else Inr \<lparr>listing_items = [\<lparr>product_id = 3, product_offer_id = ''C3''\<rparr>],
                         listing_total = 3, listing_last_id = ''3''\<rparr>),
      feed_reply = (\<lambda>log. Inr demo_feed),
      import_reply = (\<lambda>log. None)\<rparr>"

text \<open>The stock payload of the scenario for the second channel's warehouse.\<close>

definition demo_market_stocks_dbs :: "market_stock list" where
  "demo_market_stocks_dbs =
     [\<lparr>sku = ''A1'', warehouseId = ''VB22'',
       items = [\<lparr>item_count = 100, item_type = ''FIT'', updatedAt = demo_date\<rparr>]\<rparr>,
      \<lparr>sku = ''B2'', warehouseId = ''VB22'',
       items = [\<lparr>item_count = 0, item_type = ''FIT'', updatedAt = demo_date\<rparr>]\<rparr>,
      \<lparr>sku = ''C3'', warehouseId = ''VB22'',
       items = [\<lparr>item_count = 0, item_type = ''FIT'', updatedAt = demo_date\<rparr>]\<rparr>]"

text \<open>The calls that update prices.\<close>

fun is_price_import :: "request \<Rightarrow> bool" where
  "is_price_import (ImportPrices prices) = True"
| "is_price_import (ProductList lid) = False"
| "is_price_import DownloadStock = False"
| "is_price_import (ImportStocks stocks) = False"

fun is_price_post :: "market_request \<Rightarrow> bool" where
  "is_price_post (PostPrices campaign_id prices) = True"
| "is_price_post (OfferMappingEntries campaign_id page) = False"
| "is_price_post MarketDownloadStock = False"
| "is_price_post (PutStocks campaign_id stocks) = False"

section \<open>Facts about the Python built-ins\<close>

lemma split_on_head: "\<exists>ws. split_on sep s = takeWhile (\<lambda>c. c \<noteq> sep) s # ws"
  by (induction s) auto

lemma price_conversion_eq:
  "price_conversion s = Inr (filter is_digit (takeWhile (\<lambda>c. c \<noteq> CHR ''.'') s))"
proof -
  obtain ws where "split_on CHR ''.'' s = takeWhile (\<lambda>c. c \<noteq> CHR ''.'') s # ws"
    using split_on_head by blast
  then show ?thesis
    by (simp add: price_conversion_def re_sub_non_digits_def)
qed

lemma transform_ascii:
  "list_all (\<lambda>c. (of_char c :: nat) < 128) s \<Longrightarrow> transform_decimal_and_space s = s"
  by (simp add: transform_decimal_and_space_def)

lemma digit_ascii: "is_digit c \<Longrightarrow> (of_char c :: nat) < 128"
  by (simp add: is_digit_def)

lemma py_int_str_empty: "py_int_str [] = Inl ValueError"
  by (simp add: py_int_str_def transform_decimal_and_space_def long_from_string_def)

lemma digit_not_space: "is_digit c \<Longrightarrow> \<not> is_space c"
  by (auto simp: is_digit_def is_space_def)

lemma digit_not_sign: "is_digit c \<Longrightarrow> c \<noteq> CHR ''-'' \<and> c \<noteq> CHR ''+''"
  by (auto simp: is_digit_def)

lemma underscores_ok_digits: "list_all is_digit d \<Longrightarrow> d \<noteq> [] \<Longrightarrow> underscores_ok d"
  by (induction d rule: underscores_ok.induct) auto

lemma py_int_str_digits:
  assumes "list_all is_digit d" "d \<noteq> []" "length d \<le> int_max_str_digits"
  shows "py_int_str d = Inr (int (decimal 0 d))"
proof -
  obtain c r where d: "d = c # r" using assms(2) by (cases d) auto
  have c: "is_digit c" using assms(1) d by simp
  have ascii: "transform_decimal_and_space d = d"
    using assms(1) by (intro transform_ascii) (auto simp: list_all_iff digit_ascii)
  have all: "\<forall>x\<in>set d. is_digit x \<or> x = CHR ''_''" using assms(1) by (auto simp: list_all_iff)
  have tw: "takeWhile (\<lambda>c. is_digit c \<or> c = CHR ''_'') d = d"
    using all by (simp only: takeWhile_eq_all_conv)
  have dw: "dropWhile (\<lambda>c. is_digit c \<or> c = CHR ''_'') d = []"
    using all by (simp only: dropWhile_eq_Nil_conv)
  have fl: "filter is_digit d = d" using assms(1) by (simp add: list_all_iff)
  have sp: "dropWhile is_space d = d" using c d digit_not_space by simp
  have uo: "underscores_ok d" using assms(1,2) by (rule underscores_ok_digits)
  have neg: "(case d of c # _ \<Rightarrow> c = CHR ''-'' | [] \<Rightarrow> False) = False"
    using digit_not_sign[OF c] by (simp add: d)
  have u: "(case d of c # r \<Rightarrow> if c = CHR ''-'' \<or> c = CHR ''+'' then r else d | [] \<Rightarrow> d) = d"
    using digit_not_sign[OF c] by (simp add: d)
  have hd: "(case d of c # _ \<Rightarrow> is_digit c | [] \<Rightarrow> False) = True"
    using c by (simp add: d)
  show ?thesis
    unfolding py_int_str_def ascii
    by (simp add: long_from_string_def Let_def sp neg u tw dw fl uo hd assms(3))
qed

lemma py_int_str_too_long:
  assumes "list_all is_digit d" "int_max_str_digits < length d"
  shows "py_int_str d = Inl ValueError"
proof -
  have ascii: "transform_decimal_and_space d = d"
    using assms(1) by (intro transform_ascii) (auto simp: list_all_iff digit_ascii)
  have ne: "d \<noteq> []" using assms(2) by auto
  then obtain c r where d: "d = c # r" by (cases d) auto
  have c: "is_digit c" using assms(1) d by simp
  have all: "\<forall>x\<in>set d. is_digit x \<or> x = CHR ''_''" using assms(1) by (auto simp: list_all_iff)
  have tw: "takeWhile (\<lambda>c. is_digit c \<or> c = CHR ''_'') d = d"
    using all by (simp only: takeWhile_eq_all_conv)
  have fl: "filter is_digit d = d" using assms(1) by (simp add: list_all_iff)
  have sp: "dropWhile is_space d = d" using c d digit_not_space by simp
  have u: "(case d of c # r \<Rightarrow> if c = CHR ''-'' \<or> c = CHR ''+'' then r else d | [] \<Rightarrow> d) = d"
    using digit_not_sign[OF c] by (simp add: d)
  show ?thesis
    unfolding py_int_str_def ascii
    using assms(2) by (simp add: long_from_string_def Let_def sp u tw fl)
qed


text \<open>What \<open>int\<close> does at the edges of its input language: a separator U+001C is
  not skipped, a no-break space is, an Arabic-Indic digit three reads as 3, digits of
  one script group with underscores, and 4301 digits are one too many.\<close>

lemma py_int_str_examples:
  "py_int_str [CHR 0x1C, CHR ''7''] = Inl ValueError
   \<and> py_int_str [CHR ''7'', CHR 0x1F] = Inl ValueError
   \<and> py_int_str [CHR 0xC2, CHR 0xA0, CHR ''7''] = Inr 7
   \<and> py_int_str [CHR 0xD9, CHR 0xA3] = Inr 3
   \<and> py_int_str '' 1_000 '' = Inr 1000
   \<and> py_int_str ''-12'' = Inr (- 12)
   \<and> py_int_str ''1__0'' = Inl ValueError
   \<and> py_int_str (replicate 4301 (CHR ''9'')) = Inl ValueError"
proof -
  note defs = py_int_str_def transform_decimal_and_space_def long_from_string_def
    utf8_head_def uni_space_def uni_decimal_def uni_zero_digits_def ascii_digit_def
    is_digit_def is_space_def digit_val_def int_max_str_digits_def Let_def
  have "py_int_str (replicate 4301 (CHR ''9'')) = Inl ValueError"
    by (rule py_int_str_too_long) (simp_all add: list_all_iff is_digit_def int_max_str_digits_def)
  moreover have "py_int_str [CHR 0x1C, CHR ''7''] = Inl ValueError"
    by (simp add: defs)
  moreover have "py_int_str [CHR ''7'', CHR 0x1F] = Inl ValueError"
    by (simp add: defs)
  moreover have "py_int_str [CHR 0xC2, CHR 0xA0, CHR ''7''] = Inr 7"
    by (simp add: defs)
  moreover have "py_int_str [CHR 0xD9, CHR 0xA3] = Inr 3"
    by (simp add: defs)
  moreover have "py_int_str '' 1_000 '' = Inr 1000"
    by (simp add: defs)
  moreover have "py_int_str ''-12'' = Inr (- 12)"
    by (simp add: defs)
  moreover have "py_int_str ''1__0'' = Inl ValueError"
    by (simp add: defs)
  ultimately show ?thesis by simp
qed

section \<open>The price normalizer\<close>

text \<open>
  C6: for every input string, \<open>price_conversion\<close> returns the digits of the part of the
  input that precedes the first period; the fraction is dropped without rounding, and
  the digits after a comma are kept as part of the integer.
\<close>

theorem price_conversion_digits_before_period:
  "price_conversion s = Inr (filter is_digit (takeWhile (\<lambda>c. c \<noteq> CHR ''.'') s))
   \<and> price_conversion (''5'990.00 '' @ rub @ ''.'') = Inr ''5990''
   \<and> price_conversion (''5'990.60 '' @ rub @ ''.'') = Inr ''5990''
   \<and> price_conversion (''5'990,60 '' @ rub @ ''.'') = Inr ''599060''"
  by (simp add: price_conversion_eq rub_def is_digit_def)

section \<open>The stock scan\<close>

lemma scan_stocks_Cons:
  "scan_stocks (w # ws) acc ids =
     (if py_str (Kod w) \<in> set ids then
        (case resolved_stock (Kolichestvo w) of
           Inl e \<Rightarrow> Inl e
         | Inr k \<Rightarrow> scan_stocks ws (acc @ [\<lparr>offer_id = py_str (Kod w), stock = k\<rparr>])
                      (remove1 (py_str (Kod w)) ids))
      else scan_stocks ws acc ids)"
  by (simp add: resolved_stock_def Let_def)

lemma scan_stocks_matched:
  assumes "scan_stocks (w # ws) acc ids = Inr r" "py_str (Kod w) \<in> set ids"
  obtains k where "resolved_stock (Kolichestvo w) = Inr k"
    and "scan_stocks ws (acc @ [\<lparr>offer_id = py_str (Kod w), stock = k\<rparr>])
           (remove1 (py_str (Kod w)) ids) = Inr r"
  using assms unfolding scan_stocks_Cons by (auto split: sum.splits)

lemma scan_stocks_unmatched:
  "py_str (Kod w) \<notin> set ids \<Longrightarrow> scan_stocks (w # ws) acc ids = scan_stocks ws acc ids"
  by simp

lemma scan_stocks_append:
  "scan_stocks (xs @ ys) acc ids =
     (case scan_stocks xs acc ids of Inl e \<Rightarrow> Inl e | Inr (a, l) \<Rightarrow> scan_stocks ys a l)"
proof (induction xs arbitrary: acc ids)
  case Nil
  show ?case by simp
next
  case (Cons w xs)
  show ?case
    unfolding append_Cons scan_stocks_Cons
    by (simp add: Cons.IH split: sum.splits)
qed

lemma scan_stocks_keeps_acc:
  "scan_stocks ws acc ids = Inr (st, l) \<Longrightarrow> \<exists>new. st = acc @ new"
proof (induction ws arbitrary: acc ids)
  case Nil
  then show ?case by simp
next
  case (Cons w ws)
  show ?case
  proof (cases "py_str (Kod w) \<in> set ids")
    case True
    from Cons.prems True obtain k where
      "scan_stocks ws (acc @ [\<lparr>offer_id = py_str (Kod w), stock = k\<rparr>])
         (remove1 (py_str (Kod w)) ids) = Inr (st, l)"
      by (rule scan_stocks_matched)
    from Cons.IH[OF this] show ?thesis by auto
  next
    case False
    with Cons show ?thesis by simp
  qed
qed

lemma scan_stocks_working_set:
  "scan_stocks ws acc ids = Inr (st, l) \<Longrightarrow> l = working_set ws ids"
proof (induction ws arbitrary: acc ids)
  case Nil
  then show ?case by simp
next
  case (Cons w ws)
  show ?case
  proof (cases "py_str (Kod w) \<in> set ids")
    case True
    from Cons.prems True obtain k where
      "scan_stocks ws (acc @ [\<lparr>offer_id = py_str (Kod w), stock = k\<rparr>])
         (remove1 (py_str (Kod w)) ids) = Inr (st, l)"
      by (rule scan_stocks_matched)
    from Cons.IH[OF this] True show ?thesis by simp
  next
    case False
    with Cons show ?thesis by simp
  qed
qed

lemma scan_stocks_mset:
  "scan_stocks ws acc ids = Inr (st, l) \<Longrightarrow>
     mset (map offer_id st) + mset l = mset (map offer_id acc) + mset ids"
proof (induction ws arbitrary: acc ids)
  case Nil
  then show ?case by simp
next
  case (Cons w ws)
  show ?case
  proof (cases "py_str (Kod w) \<in> set ids")
    case True
    from Cons.prems True obtain k where
      "scan_stocks ws (acc @ [\<lparr>offer_id = py_str (Kod w), stock = k\<rparr>]) (remove1 (py_str (Kod w)) ids) = Inr (st, l)"
      by (rule scan_stocks_matched)
    from Cons.IH[OF this] True show ?thesis by simp
  next
    case False
    with Cons show ?thesis by auto
  qed
qed

lemma remove1_filter_distinct:
  "distinct ids \<Longrightarrow> remove1 c (filter P ids) = filter (\<lambda>i. i \<noteq> c \<and> P i) ids"
proof -
  assume "distinct ids"
  then have "distinct (filter P ids)" by simp
  then have "remove1 c (filter P ids) = filter (\<lambda>i. c \<noteq> i) (filter P ids)"
    by (simp add: distinct_remove1_removeAll removeAll_filter_not_eq)
  also have "\<dots> = filter (\<lambda>i. i \<noteq> c \<and> P i) ids"
    by (auto intro: filter_cong)
  finally show ?thesis .
qed

lemma scan_stocks_first_match:
  assumes "distinct ids"
  shows "scan_stocks ws acc (filter (\<lambda>i. i \<notin> set seen) ids) = Inr (st, l) \<Longrightarrow>
     l = filter (\<lambda>i. i \<notin> set seen \<and> i \<notin> (\<lambda>w. py_str (Kod w)) ` set ws) ids
     \<and> (\<exists>new. st = acc @ new
          \<and> list_all2 resolves_to
               (filter (\<lambda>w. py_str (Kod w) \<in> set ids) (first_by_code seen ws)) new)"
proof (induction ws arbitrary: acc seen)
  case Nil
  then show ?case by simp
next
  case (Cons w ws)
  let ?c = "py_str (Kod w)"
  let ?cur = "filter (\<lambda>i. i \<notin> set seen) ids"
  show ?case
  proof (cases "?c \<in> set ?cur")
    case True
    then have cin: "?c \<in> set ids" and cns: "?c \<notin> set seen" by auto
    from Cons.prems True obtain k where k: "resolved_stock (Kolichestvo w) = Inr k"
      and rec: "scan_stocks ws (acc @ [\<lparr>offer_id = ?c, stock = k\<rparr>]) (remove1 ?c ?cur) = Inr (st, l)"
      by (rule scan_stocks_matched)
    have "remove1 ?c ?cur = filter (\<lambda>i. i \<notin> set (?c # seen)) ids"
      using remove1_filter_distinct[OF assms, of ?c "\<lambda>i. i \<notin> set seen"] by (simp add: conj_commute)
    with rec have "scan_stocks ws (acc @ [\<lparr>offer_id = ?c, stock = k\<rparr>])
                     (filter (\<lambda>i. i \<notin> set (?c # seen)) ids) = Inr (st, l)" by simp
    from Cons.IH[OF this] obtain new where
      l: "l = filter (\<lambda>i. i \<notin> set (?c # seen) \<and> i \<notin> (\<lambda>w. py_str (Kod w)) ` set ws) ids"
      and st: "st = (acc @ [\<lparr>offer_id = ?c, stock = k\<rparr>]) @ new"
      and rel: "list_all2 resolves_to
                  (filter (\<lambda>w. py_str (Kod w) \<in> set ids) (first_by_code (?c # seen) ws)) new"
      by blast
    have "l = filter (\<lambda>i. i \<notin> set seen \<and> i \<notin> (\<lambda>w. py_str (Kod w)) ` set (w # ws)) ids"
      unfolding l by (rule filter_cong) auto
    moreover have "resolves_to w \<lparr>offer_id = ?c, stock = k\<rparr>"
      using k by (simp add: resolves_to_def)
    then have "list_all2 resolves_to
                 (filter (\<lambda>w. py_str (Kod w) \<in> set ids) (first_by_code seen (w # ws)))
                 (\<lparr>offer_id = ?c, stock = k\<rparr> # new)"
      using rel cin cns by simp
    ultimately show ?thesis using st by auto
  next
    case False
    from Cons.prems have rec: "scan_stocks ws acc ?cur = Inr (st, l)"
      unfolding scan_stocks_unmatched[OF False] .
    show ?thesis
    proof (cases "?c \<in> set seen")
      case True
      from Cons.IH[OF rec] obtain new where
        l: "l = filter (\<lambda>i. i \<notin> set seen \<and> i \<notin> (\<lambda>w. py_str (Kod w)) ` set ws) ids"
        and st: "st = acc @ new"
        and rel: "list_all2 resolves_to
                    (filter (\<lambda>w. py_str (Kod w) \<in> set ids) (first_by_code seen ws)) new"
        by blast
      have "l = filter (\<lambda>i. i \<notin> set seen \<and> i \<notin> (\<lambda>w. py_str (Kod w)) ` set (w # ws)) ids"
        unfolding l using True by (intro filter_cong) auto
      then show ?thesis using st rel True by auto
    next
      case nseen: False
      with False have nin: "?c \<notin> set ids" by simp
      then have "?cur = filter (\<lambda>i. i \<notin> set (?c # seen)) ids"
        by (intro filter_cong) auto
      with rec have "scan_stocks ws acc (filter (\<lambda>i. i \<notin> set (?c # seen)) ids) = Inr (st, l)"
        by simp
      from Cons.IH[OF this] obtain new where
        l: "l = filter (\<lambda>i. i \<notin> set (?c # seen) \<and> i \<notin> (\<lambda>w. py_str (Kod w)) ` set ws) ids"
        and st: "st = acc @ new"
        and rel: "list_all2 resolves_to
                    (filter (\<lambda>w. py_str (Kod w) \<in> set ids) (first_by_code (?c # seen) ws)) new"
        by blast
      have "l = filter (\<lambda>i. i \<notin> set seen \<and> i \<notin> (\<lambda>w. py_str (Kod w)) ` set (w # ws)) ids"
        unfolding l by (rule filter_cong) auto
      then show ?thesis using st rel nseen nin by auto
    qed
  qed
qed

lemma working_set_keeps_id:
  "c \<in> set ids \<Longrightarrow> c \<notin> (\<lambda>w. py_str (Kod w)) ` set ws \<Longrightarrow> c \<in> set (working_set ws ids)"
  by (induction ws arbitrary: ids) auto

lemma create_stocks_InrD:
  assumes "create_stocks ws ids = Inr (stocks, left)"
  obtains st where "scan_stocks ws [] ids = Inr (st, left)"
    and "stocks = st @ map (\<lambda>i. \<lparr>offer_id = i, stock = 0\<rparr>) left"
  using assms unfolding create_stocks_def by (auto split: sum.splits)

lemma create_stocks_Inl_iff:
  "create_stocks ws ids = Inl e \<longleftrightarrow> scan_stocks ws [] ids = Inl e"
  unfolding create_stocks_def by (auto split: sum.splits)

lemma scan_stocks_reaches:
  assumes "py_str (Kod w) \<in> set (working_set pre ids)"
    and "scan_stocks (pre @ w # post) acc ids = Inr (st, l)"
  shows "\<exists>k. resolved_stock (Kolichestvo w) = Inr k
             \<and> \<lparr>offer_id = py_str (Kod w), stock = k\<rparr> \<in> set st"
proof -
  from assms(2) obtain a l1 where pre: "scan_stocks pre acc ids = Inr (a, l1)"
    and rest: "scan_stocks (w # post) a l1 = Inr (st, l)"
    unfolding scan_stocks_append by (auto split: sum.splits)
  have "py_str (Kod w) \<in> set l1"
    using scan_stocks_working_set[OF pre] assms(1) by simp
  with rest obtain k where k: "resolved_stock (Kolichestvo w) = Inr k"
    and rec: "scan_stocks post (a @ [\<lparr>offer_id = py_str (Kod w), stock = k\<rparr>])
                (remove1 (py_str (Kod w)) l1) = Inr (st, l)"
    by (rule scan_stocks_matched)
  from scan_stocks_keeps_acc[OF rec] have "\<lparr>offer_id = py_str (Kod w), stock = k\<rparr> \<in> set st"
    by auto
  with k show ?thesis by blast
qed

lemma scan_stocks_stops:
  assumes "py_str (Kod w) \<in> set (working_set pre ids)"
    and "resolved_stock (Kolichestvo w) = Inl e"
    and "scan_stocks pre acc ids = Inr (a, l1)"
  shows "scan_stocks (pre @ w # post) acc ids = Inl e"
proof -
  have "py_str (Kod w) \<in> set l1"
    using scan_stocks_working_set[OF assms(3)] assms(1) by simp
  then have "scan_stocks (w # post) a l1 = Inl e"
    unfolding scan_stocks_Cons using assms(2) by simp
  then show ?thesis
    unfolding scan_stocks_append using assms(3) by simp
qed

lemma scan_stocks_fails:
  assumes "py_str (Kod w) \<in> set (working_set pre ids)"
    and "resolved_stock (Kolichestvo w) = Inl e"
  shows "\<exists>e'. scan_stocks (pre @ w # post) acc ids = Inl e'"
proof (cases "scan_stocks (pre @ w # post) acc ids")
  case (Inl e')
  then show ?thesis by blast
next
  case (Inr r)
  obtain st l where "r = (st, l)" by (cases r)
  with Inr have "scan_stocks (pre @ w # post) acc ids = Inr (st, l)" by simp
  from scan_stocks_reaches[OF assms(1) this] assms(2)
  show ?thesis by auto
qed

section \<open>The stock scan of the second marketplace\<close>

lemma market_scan_stocks_Cons:
  "market_scan_stocks wh date (w # ws) acc ids =
     (if py_str (Kod w) \<in> set ids then
        (case resolved_stock (Kolichestvo w) of
           Inl e \<Rightarrow> Inl e
         | Inr k \<Rightarrow> market_scan_stocks wh date ws 
               (acc @ [\<lparr>sku = py_str (Kod w), warehouseId = wh,
                 items = [\<lparr>item_count = k, item_type = ''FIT'', updatedAt = date\<rparr>]\<rparr>])
                      (remove1 (py_str (Kod w)) ids))
      else market_scan_stocks wh date ws acc ids)"
  by (simp add: resolved_stock_def Let_def)

lemma market_scan_stocks_matched:
  assumes "market_scan_stocks wh date (w # ws) acc ids = Inr r" "py_str (Kod w) \<in> set ids"
  obtains k where "resolved_stock (Kolichestvo w) = Inr k"
    and "market_scan_stocks wh date ws 
          (acc @ [\<lparr>sku = py_str (Kod w), warehouseId = wh,
            items = [\<lparr>item_count = k, item_type = ''FIT'', updatedAt = date\<rparr>]\<rparr>])
           (remove1 (py_str (Kod w)) ids) = Inr r"
  using assms unfolding market_scan_stocks_Cons by (auto split: sum.splits)

lemma market_scan_stocks_unmatched:
  "py_str (Kod w) \<notin> set ids \<Longrightarrow> market_scan_stocks wh date (w # ws) acc ids = market_scan_stocks wh date ws acc ids"
  by simp

lemma market_scan_stocks_append:
  "market_scan_stocks wh date (xs @ ys) acc ids =
     (case market_scan_stocks wh date xs acc ids of Inl e \<Rightarrow> Inl e | Inr (a, l) \<Rightarrow> market_scan_stocks wh date ys a l)"
proof (induction xs arbitrary: acc ids)
  case Nil
  show ?case by simp
next
  case (Cons w xs)
  show ?case
    unfolding append_Cons market_scan_stocks_Cons
    by (simp add: Cons.IH split: sum.splits)
qed

lemma market_scan_stocks_keeps_acc:
  "market_scan_stocks wh date ws acc ids = Inr (st, l) \<Longrightarrow> \<exists>new. st = acc @ new"
proof (induction ws arbitrary: acc ids)
  case Nil
  then show ?case by simp
next
  case (Cons w ws)
  show ?case
  proof (cases "py_str (Kod w) \<in> set ids")
    case True
    from Cons.prems True obtain k where
      "market_scan_stocks wh date ws 
            (acc @ [\<lparr>sku = py_str (Kod w), warehouseId = wh,
              items = [\<lparr>item_count = k, item_type = ''FIT'', updatedAt = date\<rparr>]\<rparr>])
         (remove1 (py_str (Kod w)) ids) = Inr (st, l)"
      by (rule market_scan_stocks_matched)
    from Cons.IH[OF this] show ?thesis by auto
  next
    case False
    with Cons show ?thesis by simp
  qed
qed

lemma market_scan_stocks_working_set:
  "market_scan_stocks wh date ws acc ids = Inr (st, l) \<Longrightarrow> l = working_set ws ids"
proof (induction ws arbitrary: acc ids)
  case Nil
  then show ?case by simp
next
  case (Cons w ws)
  show ?case
  proof (cases "py_str (Kod w) \<in> set ids")
    case True
    from Cons.prems True obtain k where
      "market_scan_stocks wh date ws 
            (acc @ [\<lparr>sku = py_str (Kod w), warehouseId = wh,
              items = [\<lparr>item_count = k, item_type = ''FIT'', updatedAt = date\<rparr>]\<rparr>])
         (remove1 (py_str (Kod w)) ids) = Inr (st, l)"
      by (rule market_scan_stocks_matched)
    from Cons.IH[OF this] True show ?thesis by simp
  next
    case False
    with Cons show ?thesis by simp
  qed
qed

lemma market_create_stocks_InrD:
  assumes "market_create_stocks date ws ids wh = Inr (stocks, left)"
  obtains st where "market_scan_stocks wh date ws [] ids = Inr (st, left)"
    and "stocks = st @ map (\<lambda>i. \<lparr>sku = i, warehouseId = wh,
            items = [\<lparr>item_count = 0, item_type = ''FIT'', updatedAt = date\<rparr>]\<rparr>) left"
  using assms unfolding market_create_stocks_def by (auto split: sum.splits)

lemma market_create_stocks_Inl_iff:
  "market_create_stocks date ws ids wh = Inl e \<longleftrightarrow> market_scan_stocks wh date ws [] ids = Inl e"
  unfolding market_create_stocks_def by (auto split: sum.splits)

lemma market_scan_stocks_reaches:
  assumes "py_str (Kod w) \<in> set (working_set pre ids)"
    and "market_scan_stocks wh date (pre @ w # post) acc ids = Inr (st, l)"
  shows "\<exists>k. resolved_stock (Kolichestvo w) = Inr k
             \<and> \<lparr>sku = py_str (Kod w), warehouseId = wh,
                     items = [\<lparr>item_count = k, item_type = ''FIT'', updatedAt = date\<rparr>]\<rparr> \<in> set st"
proof -
  from assms(2) obtain a l1 where pre: "market_scan_stocks wh date pre acc ids = Inr (a, l1)"
    and rest: "market_scan_stocks wh date (w # post) a l1 = Inr (st, l)"
    unfolding market_scan_stocks_append by (auto split: sum.splits)
  have "py_str (Kod w) \<in> set l1"
    using market_scan_stocks_working_set[OF pre] assms(1) by simp
  with rest obtain k where k: "resolved_stock (Kolichestvo w) = Inr k"
    and rec: "market_scan_stocks wh date post 
          (a @ [\<lparr>sku = py_str (Kod w), warehouseId = wh,
            items = [\<lparr>item_count = k, item_type = ''FIT'', updatedAt = date\<rparr>]\<rparr>])
                (remove1 (py_str (Kod w)) l1) = Inr (st, l)"
    by (rule market_scan_stocks_matched)
  from market_scan_stocks_keeps_acc[OF rec] have "\<lparr>sku = py_str (Kod w), warehouseId = wh,
          items = [\<lparr>item_count = k, item_type = ''FIT'', updatedAt = date\<rparr>]\<rparr> \<in> set st"
    by auto
  with k show ?thesis by blast
qed

lemma market_scan_stocks_stops:
  assumes "py_str (Kod w) \<in> set (working_set pre ids)"
    and "resolved_stock (Kolichestvo w) = Inl e"
    and "market_scan_stocks wh date pre acc ids = Inr (a, l1)"
  shows "market_scan_stocks wh date (pre @ w # post) acc ids = Inl e"
proof -
  have "py_str (Kod w) \<in> set l1"
    using market_scan_stocks_working_set[OF assms(3)] assms(1) by simp
  then have "market_scan_stocks wh date (w # post) a l1 = Inl e"
    unfolding market_scan_stocks_Cons using assms(2) by simp
  then show ?thesis
    unfolding market_scan_stocks_append using assms(3) by simp
qed

lemma market_scan_stocks_fails:
  assumes "py_str (Kod w) \<in> set (working_set pre ids)"
    and "resolved_stock (Kolichestvo w) = Inl e"
  shows "\<exists>e'. market_scan_stocks wh date (pre @ w # post) acc ids = Inl e'"
proof (cases "market_scan_stocks wh date (pre @ w # post) acc ids")
  case (Inl e')
  then show ?thesis by blast
next
  case (Inr r)
  obtain st l where "r = (st, l)" by (cases r)
  with Inr have "market_scan_stocks wh date (pre @ w # post) acc ids = Inr (st, l)" by simp
  from market_scan_stocks_reaches[OF assms(1) this] assms(2)
  show ?thesis by auto
qed

section \<open>The stock reconciler covers the catalog\<close>

text \<open>
  C2: when \<open>create_stocks\<close> returns, its output has one entry per entry of the offer-id
  list. For an offer-id list without repetitions: the ids of the output are distinct
  and are exactly the known ids; the output is the resolved entries of the matched
  records (the first record of each known code, in scan order) followed by a zero entry
  for every id that no record carries, in catalog order.
\<close>

theorem create_stocks_one_entry_per_offer_id:
  assumes "create_stocks ws ids = Inr (stocks, left)"
  shows "mset (map offer_id stocks) = mset ids
     \<and> (distinct ids \<longrightarrow>
          distinct (map offer_id stocks) \<and> set (map offer_id stocks) = set ids
          \<and> left = filter (\<lambda>i. i \<notin> (\<lambda>w. py_str (Kod w)) ` set ws) ids
          \<and> (\<exists>matched.
                stocks = matched @ map (\<lambda>i. \<lparr>offer_id = i, stock = 0\<rparr>) left
                \<and> list_all2 resolves_to
                     (filter (\<lambda>w. py_str (Kod w) \<in> set ids) (first_by_code [] ws)) matched))"
proof -
  from assms obtain st where scan: "scan_stocks ws [] ids = Inr (st, left)"
    and stocks: "stocks = st @ map (\<lambda>i. \<lparr>offer_id = i, stock = 0\<rparr>) left"
    by (rule create_stocks_InrD)
  have ms: "mset (map offer_id stocks) = mset ids"
    using scan_stocks_mset[OF scan] by (simp add: stocks comp_def)
  have "distinct (map offer_id stocks) \<and> set (map offer_id stocks) = set ids
          \<and> left = filter (\<lambda>i. i \<notin> (\<lambda>w. py_str (Kod w)) ` set ws) ids
          \<and> (\<exists>matched.
                stocks = matched @ map (\<lambda>i. \<lparr>offer_id = i, stock = 0\<rparr>) left
                \<and> list_all2 resolves_to
                     (filter (\<lambda>w. py_str (Kod w) \<in> set ids) (first_by_code [] ws)) matched)"
    if d: "distinct ids"
  proof -
    have "distinct (map offer_id stocks)"
      using ms d mset_eq_imp_distinct_iff by blast
    moreover have "set (map offer_id stocks) = set ids"
      using ms by (rule mset_eq_setD)
    moreover from scan have "scan_stocks ws [] (filter (\<lambda>i. i \<notin> set []) ids) = Inr (st, left)"
      by simp
    from scan_stocks_first_match[OF d this]
    have "left = filter (\<lambda>i. i \<notin> (\<lambda>w. py_str (Kod w)) ` set ws) ids"
      and "list_all2 resolves_to
             (filter (\<lambda>w. py_str (Kod w) \<in> set ids) (first_by_code [] ws)) st"
      by auto
    ultimately show ?thesis using stocks by blast
  qed
  with ms show ?thesis by blast
qed

theorem create_stocks_one_entry_per_offer_id_witness:
  "create_stocks demo_feed demo_offer_ids = Inr (demo_stocks, [''C3''])
   \<and> distinct demo_offer_ids
   \<and> mset (map offer_id demo_stocks) = mset demo_offer_ids
   \<and> distinct (map offer_id demo_stocks)
   \<and> set (map offer_id demo_stocks) = set demo_offer_ids
   \<and> [''C3''] = filter (\<lambda>i. i \<notin> (\<lambda>w. py_str (Kod w)) ` set demo_feed) demo_offer_ids
   \<and> (\<exists>matched.
         demo_stocks = matched @ map (\<lambda>i. \<lparr>offer_id = i, stock = 0\<rparr>) [''C3'']
         \<and> list_all2 resolves_to
              (filter (\<lambda>w. py_str (Kod w) \<in> set demo_offer_ids) (first_by_code [] demo_feed))
              matched)"
proof -
  have run: "create_stocks demo_feed demo_offer_ids = Inr (demo_stocks, [''C3''])"
    by (simp add: create_stocks_def demo_feed_def demo_a1_def demo_b2_def demo_offer_ids_def
          demo_stocks_def)
  have d: "distinct demo_offer_ids"
    by (simp add: demo_offer_ids_def)
  from create_stocks_one_entry_per_offer_id[OF run] d run show ?thesis
    by blast
qed

section \<open>Resolution of the quantity token\<close>

lemma resolved_stock_cases:
  "resolved_stock q = Inr k \<Longrightarrow>
     (py_str q = ''>10'' \<longrightarrow> k = 100) \<and> (py_str q = ''1'' \<longrightarrow> k = 0)
     \<and> (py_str q \<noteq> ''>10'' \<and> py_str q \<noteq> ''1'' \<longrightarrow> py_int q = Inr k)"
  by (auto simp: resolved_stock_def split: if_splits)

lemma resolved_stock_other:
  "py_str q \<noteq> ''>10'' \<Longrightarrow> py_str q \<noteq> ''1'' \<Longrightarrow> resolved_stock q = py_int q"
  by (simp add: resolved_stock_def)

text \<open>
  C1: take a record \<open>w\<close> of the feed whose code is in the offer-id list when the scan
  reaches it, that is, in the working set left by the records \<open>pre\<close> before it. If the
  stock reconciler of either marketplace returns, its output holds the entry of \<open>w\<close>
  with stock 100 for the token \<open>">10"\<close>, with stock 0 for the token \<open>"1"\<close>, and with the
  integer that \<open>int\<close> reads from any other token. If the token is neither sentinel and
  \<open>int\<close> rejects it, the reconciler fails; it fails with that very error when the
  records before \<open>w\<close> reconcile.
\<close>

theorem stock_quantity_resolution:
  assumes matched: "py_str (Kod w) \<in> set (working_set pre ids)"
  shows
    "(create_stocks (pre @ w # post) ids = Inr (stocks, left) \<longrightarrow>
        (py_str (Kolichestvo w) = ''>10''
           \<longrightarrow> \<lparr>offer_id = py_str (Kod w), stock = 100\<rparr> \<in> set stocks)
      \<and> (py_str (Kolichestvo w) = ''1''
           \<longrightarrow> \<lparr>offer_id = py_str (Kod w), stock = 0\<rparr> \<in> set stocks)
      \<and> (py_str (Kolichestvo w) \<noteq> ''>10'' \<and> py_str (Kolichestvo w) \<noteq> ''1''
           \<longrightarrow> (\<exists>k. py_int (Kolichestvo w) = Inr k
                    \<and> \<lparr>offer_id = py_str (Kod w), stock = k\<rparr> \<in> set stocks)))
     \<and> (market_create_stocks date (pre @ w # post) ids wh = Inr (mstocks, mleft) \<longrightarrow>
        (py_str (Kolichestvo w) = ''>10''
           \<longrightarrow> \<lparr>sku = py_str (Kod w), warehouseId = wh,
                 items = [\<lparr>item_count = 100, item_type = ''FIT'', updatedAt = date\<rparr>]\<rparr>
                \<in> set mstocks)
      \<and> (py_str (Kolichestvo w) = ''1''
           \<longrightarrow> \<lparr>sku = py_str (Kod w), warehouseId = wh,
                 items = [\<lparr>item_count = 0, item_type = ''FIT'', updatedAt = date\<rparr>]\<rparr>
                \<in> set mstocks)
      \<and> (py_str (Kolichestvo w) \<noteq> ''>10'' \<and> py_str (Kolichestvo w) \<noteq> ''1''
           \<longrightarrow> (\<exists>k. py_int (Kolichestvo w) = Inr k
                    \<and> \<lparr>sku = py_str (Kod w), warehouseId = wh,
                        items = [\<lparr>item_count = k, item_type = ''FIT'', updatedAt = date\<rparr>]\<rparr>
                       \<in> set mstocks)))
     \<and> (py_str (Kolichestvo w) \<noteq> ''>10'' \<and> py_str (Kolichestvo w) \<noteq> ''1''
          \<and> py_int (Kolichestvo w) = Inl e \<longrightarrow>
        (\<exists>e'. create_stocks (pre @ w # post) ids = Inl e')
      \<and> (\<exists>e'. market_create_stocks date (pre @ w # post) ids wh = Inl e')
      \<and> (\<forall>r. create_stocks pre ids = Inr r
               \<longrightarrow> create_stocks (pre @ w # post) ids = Inl e)
      \<and> (\<forall>r. market_create_stocks date pre ids wh = Inr r
               \<longrightarrow> market_create_stocks date (pre @ w # post) ids wh = Inl e))"
proof (intro conjI impI allI)
  assume run: "create_stocks (pre @ w # post) ids = Inr (stocks, left)"
  then obtain st where scan: "scan_stocks (pre @ w # post) [] ids = Inr (st, left)"
    and stocks: "stocks = st @ map (\<lambda>i. \<lparr>offer_id = i, stock = 0\<rparr>) left"
    by (rule create_stocks_InrD)
  from scan_stocks_reaches[OF matched scan] obtain k
    where k: "resolved_stock (Kolichestvo w) = Inr k"
      and mem: "\<lparr>offer_id = py_str (Kod w), stock = k\<rparr> \<in> set stocks"
    unfolding stocks by auto
  note cases = resolved_stock_cases[OF k]
  show "\<lparr>offer_id = py_str (Kod w), stock = 100\<rparr> \<in> set stocks"
    if "py_str (Kolichestvo w) = ''>10''"
    using that cases mem by simp
  show "\<lparr>offer_id = py_str (Kod w), stock = 0\<rparr> \<in> set stocks"
    if "py_str (Kolichestvo w) = ''1''"
    using that cases mem by simp
  show "\<exists>k. py_int (Kolichestvo w) = Inr k
             \<and> \<lparr>offer_id = py_str (Kod w), stock = k\<rparr> \<in> set stocks"
    if "py_str (Kolichestvo w) \<noteq> ''>10'' \<and> py_str (Kolichestvo w) \<noteq> ''1''"
    using that cases mem by blast
next
  assume run: "market_create_stocks date (pre @ w # post) ids wh = Inr (mstocks, mleft)"
  then obtain st where scan: "market_scan_stocks wh date (pre @ w # post) [] ids = Inr (st, mleft)"
    and stocks: "mstocks = st @ map (\<lambda>i. \<lparr>sku = i, warehouseId = wh,
                   items = [\<lparr>item_count = 0, item_type = ''FIT'', updatedAt = date\<rparr>]\<rparr>) mleft"
    by (rule market_create_stocks_InrD)
  from market_scan_stocks_reaches[OF matched scan] obtain k
    where k: "resolved_stock (Kolichestvo w) = Inr k"
      and mem: "\<lparr>sku = py_str (Kod w), warehouseId = wh,
                 items = [\<lparr>item_count = k, item_type = ''FIT'', updatedAt = date\<rparr>]\<rparr>
                \<in> set mstocks"
    unfolding stocks by auto
  note cases = resolved_stock_cases[OF k]
  show "\<lparr>sku = py_str (Kod w), warehouseId = wh,
          items = [\<lparr>item_count = 100, item_type = ''FIT'', updatedAt = date\<rparr>]\<rparr>
         \<in> set mstocks"
    if "py_str (Kolichestvo w) = ''>10''"
    using that cases mem by simp
  show "\<lparr>sku = py_str (Kod w), warehouseId = wh,
          items = [\<lparr>item_count = 0, item_type = ''FIT'', updatedAt = date\<rparr>]\<rparr>
         \<in> set mstocks"
    if "py_str (Kolichestvo w) = ''1''"
    using that cases mem by simp
  show "\<exists>k. py_int (Kolichestvo w) = Inr k
             \<and> \<lparr>sku = py_str (Kod w), warehouseId = wh,
                 items = [\<lparr>item_count = k, item_type = ''FIT'', updatedAt = date\<rparr>]\<rparr>
                \<in> set mstocks"
    if "py_str (Kolichestvo w) \<noteq> ''>10'' \<and> py_str (Kolichestvo w) \<noteq> ''1''"
    using that cases mem by blast
next
  assume bad: "py_str (Kolichestvo w) \<noteq> ''>10'' \<and> py_str (Kolichestvo w) \<noteq> ''1''
                 \<and> py_int (Kolichestvo w) = Inl e"
  then have res: "resolved_stock (Kolichestvo w) = Inl e"
    by (simp add: resolved_stock_other)
  show "\<exists>e'. create_stocks (pre @ w # post) ids = Inl e'"
    using scan_stocks_fails[OF matched res] by (simp add: create_stocks_Inl_iff)
  show "\<exists>e'. market_create_stocks date (pre @ w # post) ids wh = Inl e'"
    using market_scan_stocks_fails[OF matched res]
    by (simp add: market_create_stocks_Inl_iff)
  show "create_stocks (pre @ w # post) ids = Inl e" if "create_stocks pre ids = Inr r" for r
  proof -
    obtain st l where "r = (st, l)" by (cases r)
    with that obtain a where "scan_stocks pre [] ids = Inr (a, l)"
      by (auto elim: create_stocks_InrD)
    from scan_stocks_stops[OF matched res this] show ?thesis
      by (simp add: create_stocks_Inl_iff)
  qed
  show "market_create_stocks date (pre @ w # post) ids wh = Inl e"
    if "market_create_stocks date pre ids wh = Inr r" for r
  proof -
    obtain st l where "r = (st, l)" by (cases r)
    with that obtain a where "market_scan_stocks wh date pre [] ids = Inr (a, l)"
      by (auto elim: market_create_stocks_InrD)
    from market_scan_stocks_stops[OF matched res this] show ?thesis
      by (simp add: market_create_stocks_Inl_iff)
  qed
qed

theorem stock_quantity_resolution_witness:
  "py_str (Kod demo_a1) \<in> set (working_set [] demo_offer_ids)
   \<and> create_stocks ([] @ demo_a1 # [demo_b2]) demo_offer_ids = Inr (demo_stocks, [''C3''])
   \<and> py_str (Kolichestvo demo_a1) = ''>10''
   \<and> \<lparr>offer_id = ''A1'', stock = 100\<rparr> \<in> set demo_stocks
   \<and> py_str (Kod demo_b2) \<in> set (working_set [demo_a1] demo_offer_ids)
   \<and> py_str (Kolichestvo demo_b2) = ''1''
   \<and> \<lparr>offer_id = ''B2'', stock = 0\<rparr> \<in> set demo_stocks
   \<and> market_create_stocks demo_date ([demo_a1] @ demo_b2 # []) demo_offer_ids ''VB21''
       = Inr (demo_market_stocks, [''C3''])
   \<and> \<lparr>sku = ''B2'', warehouseId = ''VB21'',
        items = [\<lparr>item_count = 0, item_type = ''FIT'', updatedAt = demo_date\<rparr>]\<rparr>
       \<in> set demo_market_stocks
   \<and> py_str (Kod demo_exact) \<in> set (working_set demo_feed demo_offer_ids)
   \<and> py_int (Kolichestvo demo_exact) = Inr 7
   \<and> create_stocks (demo_feed @ demo_exact # []) demo_offer_ids
       = Inr (demo_stocks[2 := \<lparr>offer_id = ''C3'', stock = 7\<rparr>], [])
   \<and> \<lparr>offer_id = ''C3'', stock = 7\<rparr> \<in> set (demo_stocks[2 := \<lparr>offer_id = ''C3'', stock = 7\<rparr>])
   \<and> market_create_stocks demo_date (demo_feed @ demo_exact # []) demo_offer_ids ''VB21''
       = Inr (demo_market_stocks
                [2 := \<lparr>sku = ''C3'', warehouseId = ''VB21'',
                       items = [\<lparr>item_count = 7, item_type = ''FIT'',
                                 updatedAt = demo_date\<rparr>]\<rparr>], [])
   \<and> \<lparr>sku = ''C3'', warehouseId = ''VB21'',
        items = [\<lparr>item_count = 7, item_type = ''FIT'', updatedAt = demo_date\<rparr>]\<rparr>
       \<in> set (demo_market_stocks
                [2 := \<lparr>sku = ''C3'', warehouseId = ''VB21'',
                       items = [\<lparr>item_count = 7, item_type = ''FIT'',
                                 updatedAt = demo_date\<rparr>]\<rparr>])
   \<and> py_int (Kolichestvo demo_malformed) = Inl ValueError
   \<and> create_stocks demo_feed demo_offer_ids = Inr (demo_stocks, [''C3''])
   \<and> create_stocks (demo_feed @ demo_malformed # []) demo_offer_ids = Inl ValueError
   \<and> market_create_stocks demo_date demo_feed demo_offer_ids ''VB21''
       = Inr (demo_market_stocks, [''C3''])
   \<and> market_create_stocks demo_date (demo_feed @ demo_malformed # []) demo_offer_ids ''VB21''
       = Inl ValueError
   \<and> py_str (Kod demo_again) \<in> set (working_set [demo_a1] [''A1'', ''A1''])
   \<and> py_int (Kolichestvo demo_again) = Inr 5
   \<and> create_stocks ([demo_a1] @ demo_again # []) [''A1'', ''A1'']
       = Inr ([\<lparr>offer_id = ''A1'', stock = 100\<rparr>, \<lparr>offer_id = ''A1'', stock = 5\<rparr>], [])
   \<and> \<lparr>offer_id = ''A1'', stock = 5\<rparr>
       \<in> set [\<lparr>offer_id = ''A1'', stock = 100\<rparr>, \<lparr>offer_id = ''A1'', stock = 5\<rparr>]"
proof -
  note defs = demo_feed_def demo_a1_def demo_b2_def demo_exact_def demo_malformed_def
    demo_again_def demo_offer_ids_def demo_stocks_def demo_market_stocks_def
    create_stocks_def market_create_stocks_def py_int_str_def transform_decimal_and_space_def
    long_from_string_def int_max_str_digits_def is_digit_def is_space_def digit_val_def
    Let_def
  have a1: "py_str (Kod demo_a1) \<in> set (working_set [] demo_offer_ids)"
    by (simp add: defs)
  have b2: "py_str (Kod demo_b2) \<in> set (working_set [demo_a1] demo_offer_ids)"
    by (simp add: defs)
  have c3: "py_str (Kod demo_exact) \<in> set (working_set demo_feed demo_offer_ids)"
    by (simp add: defs)
  have c3': "py_str (Kod demo_malformed) \<in> set (working_set demo_feed demo_offer_ids)"
    by (simp add: defs)
  have a1': "py_str (Kod demo_again) \<in> set (working_set [demo_a1] [''A1'', ''A1''])"
    by (simp add: defs)
  have run1: "create_stocks ([] @ demo_a1 # [demo_b2]) demo_offer_ids = Inr (demo_stocks, [''C3''])"
    by (simp add: defs)
  have run2: "market_create_stocks demo_date ([demo_a1] @ demo_b2 # []) demo_offer_ids ''VB21''
       = Inr (demo_market_stocks, [''C3''])"
    by (simp add: defs)
  have run3: "create_stocks (demo_feed @ demo_exact # []) demo_offer_ids
       = Inr (demo_stocks[2 := \<lparr>offer_id = ''C3'', stock = 7\<rparr>], [])"
    by (simp add: defs)
  have run4: "market_create_stocks demo_date (demo_feed @ demo_exact # []) demo_offer_ids ''VB21''
       = Inr (demo_market_stocks
                [2 := \<lparr>sku = ''C3'', warehouseId = ''VB21'',
                       items = [\<lparr>item_count = 7, item_type = ''FIT'',
                                 updatedAt = demo_date\<rparr>]\<rparr>], [])"
    by (simp add: defs)
  have run5: "create_stocks demo_feed demo_offer_ids = Inr (demo_stocks, [''C3''])"
    by (simp add: defs)
  have run6: "market_create_stocks demo_date demo_feed demo_offer_ids ''VB21''
       = Inr (demo_market_stocks, [''C3''])"
    by (simp add: defs)
  have run7: "create_stocks ([demo_a1] @ demo_again # []) [''A1'', ''A1'']
       = Inr ([\<lparr>offer_id = ''A1'', stock = 100\<rparr>, \<lparr>offer_id = ''A1'', stock = 5\<rparr>], [])"
    by (simp add: defs)
  have q1: "py_str (Kolichestvo demo_a1) = ''>10''" by (simp add: defs)
  have q2: "py_str (Kolichestvo demo_b2) = ''1''" by (simp add: defs)
  have q3: "py_str (Kolichestvo demo_exact) \<noteq> ''>10'' \<and> py_str (Kolichestvo demo_exact) \<noteq> ''1''"
    by (simp add: defs)
  have q3v: "py_int (Kolichestvo demo_exact) = Inr 7" by (simp add: defs)
  have q4: "py_str (Kolichestvo demo_malformed) \<noteq> ''>10''
              \<and> py_str (Kolichestvo demo_malformed) \<noteq> ''1''
              \<and> py_int (Kolichestvo demo_malformed) = Inl ValueError"
    by (simp add: defs)
  have q5: "py_str (Kolichestvo demo_again) \<noteq> ''>10'' \<and> py_str (Kolichestvo demo_again) \<noteq> ''1''"
    by (simp add: defs)
  have q5v: "py_int (Kolichestvo demo_again) = Inr 5" by (simp add: defs)
  note t1 = stock_quantity_resolution[OF a1, where post = "[demo_b2]" and stocks = demo_stocks
      and left = "[''C3'']"]
  note t2 = stock_quantity_resolution[OF b2, where post = "[]" and date = demo_date
      and wh = "''VB21''" and mstocks = demo_market_stocks and mleft = "[''C3'']"
      and stocks = demo_stocks and left = "[''C3'']"]
  note t3 = stock_quantity_resolution[OF c3, where post = "[]" and date = demo_date
      and wh = "''VB21''" and stocks = "demo_stocks[2 := \<lparr>offer_id = ''C3'', stock = 7\<rparr>]"
      and left = "[]"
      and mstocks = "demo_market_stocks
                [2 := \<lparr>sku = ''C3'', warehouseId = ''VB21'',
                       items = [\<lparr>item_count = 7, item_type = ''FIT'',
                                 updatedAt = demo_date\<rparr>]\<rparr>]"
      and mleft = "[]"]
  note t4 = stock_quantity_resolution[OF c3', where post = "[]" and date = demo_date
      and wh = "''VB21''" and e = ValueError]
  note t5 = stock_quantity_resolution[OF a1', where post = "[]"
      and stocks = "[\<lparr>offer_id = ''A1'', stock = 100\<rparr>, \<lparr>offer_id = ''A1'', stock = 5\<rparr>]"
      and left = "[]"]
  have "\<lparr>offer_id = ''A1'', stock = 100\<rparr> \<in> set demo_stocks"
    using t1 run1 q1 by (simp add: demo_a1_def)
  moreover have "\<lparr>offer_id = ''B2'', stock = 0\<rparr> \<in> set demo_stocks"
    using t2 run1 q2 by (simp add: demo_b2_def)
  moreover have "\<lparr>sku = ''B2'', warehouseId = ''VB21'',
        items = [\<lparr>item_count = 0, item_type = ''FIT'', updatedAt = demo_date\<rparr>]\<rparr>
       \<in> set demo_market_stocks"
    using t2 run2 q2 by (simp add: demo_b2_def)
  moreover have "\<lparr>offer_id = ''C3'', stock = 7\<rparr> \<in> set (demo_stocks[2 := \<lparr>offer_id = ''C3'', stock = 7\<rparr>])"
    using t3 run3 q3 q3v by (simp add: demo_exact_def)
  moreover have "\<lparr>sku = ''C3'', warehouseId = ''VB21'',
        items = [\<lparr>item_count = 7, item_type = ''FIT'', updatedAt = demo_date\<rparr>]\<rparr>
       \<in> set (demo_market_stocks
                [2 := \<lparr>sku = ''C3'', warehouseId = ''VB21'',
                       items = [\<lparr>item_count = 7, item_type = ''FIT'',
                                 updatedAt = demo_date\<rparr>]\<rparr>])"
    using t3 run4 q3 q3v by (simp add: demo_exact_def)
  moreover have "create_stocks (demo_feed @ demo_malformed # []) demo_offer_ids = Inl ValueError"
    "market_create_stocks demo_date (demo_feed @ demo_malformed # []) demo_offer_ids ''VB21''
       = Inl ValueError"
    using t4 q4 run5 run6 by simp_all
  moreover have "\<lparr>offer_id = ''A1'', stock = 5\<rparr>
       \<in> set [\<lparr>offer_id = ''A1'', stock = 100\<rparr>, \<lparr>offer_id = ''A1'', stock = 5\<rparr>]"
    using t5 run7 q5 q5v by (simp add: demo_again_def)
  ultimately show ?thesis
    using a1 b2 c3 a1' run1 run2 run3 run4 run5 run6 run7 q1 q2 q3v q4 q5v by simp
qed

text \<open>The reconciler on quantity tokens at the edges of what \<open>int\<close> reads: a
  separator U+001C before the digit makes the call fail, an Arabic-Indic digit three
  and a no-break space before a digit are read.\<close>

lemma create_stocks_edge_tokens:
  "create_stocks [\<lparr>Kod = PStr ''C3'', Kolichestvo = PStr [CHR 0x1C, CHR ''7''],
                    Tsena = PStr ''300.00 r''\<rparr>] [''C3'']
     = Inl ValueError
   \<and> create_stocks [\<lparr>Kod = PStr ''C3'', Kolichestvo = PStr [CHR 0xD9, CHR 0xA3],
                      Tsena = PStr ''300.00 r''\<rparr>] [''C3'']
     = Inr ([\<lparr>offer_id = ''C3'', stock = 3\<rparr>], [])
   \<and> create_stocks [\<lparr>Kod = PStr ''C3'', Kolichestvo = PStr [CHR 0xC2, CHR 0xA0, CHR ''7''],
                      Tsena = PStr ''300.00 r''\<rparr>] [''C3'']
     = Inr ([\<lparr>offer_id = ''C3'', stock = 7\<rparr>], [])"
  by (simp add: create_stocks_def py_int_str_def transform_decimal_and_space_def
      long_from_string_def utf8_head_def uni_space_def uni_decimal_def uni_zero_digits_def
      ascii_digit_def is_digit_def is_space_def digit_val_def int_max_str_digits_def Let_def)

section \<open>The chunker\<close>

declare range_up.simps [simp del] range_down.simps [simp del]

lemma range_up_step:
  "0 < n \<Longrightarrow> i < L \<Longrightarrow> range_up i L n = i # range_up (i + n) L n"
  by (subst range_up.simps) simp

lemma range_up_done:
  "\<not> i < L \<Longrightarrow> range_up i L n = []"
  by (subst range_up.simps) simp

lemma range_down_neg_empty:
  "n < 0 \<Longrightarrow> 0 \<le> L \<Longrightarrow> range_down 0 L n = []"
  by (subst range_down.simps) simp

lemma py_slice_chunk:
  assumes "0 \<le> i" "0 < n"
  shows "py_slice lst i (i + n) = take (nat n) (drop (nat i) lst)"
proof -
  let ?L = "int (length lst)"
  have "take (nat (min (i + n) ?L - min i ?L)) (drop (nat (min i ?L)) lst)
          = take (nat n) (drop (nat i) lst)"
  proof (cases "i < ?L")
    case True
    then have lo: "min i ?L = i" by simp
    have "length (drop (nat i) lst) = nat (?L - i)" using assms(1) by simp
    show ?thesis
    proof (cases "i + n \<le> ?L")
      case True
      then show ?thesis using lo by simp
    next
      case False
      then have "min (i + n) ?L = ?L" by simp
      moreover have "length (drop (nat i) lst) \<le> nat n" using False assms by simp
      moreover have "length (drop (nat i) lst) \<le> nat (?L - i)" using assms by simp
      ultimately show ?thesis using lo by simp
    qed
  next
    case False
    then have "drop (nat i) lst = []" "drop (nat (min i ?L)) lst = []" using assms by auto
    then show ?thesis by simp
  qed
  then show ?thesis
    using assms by (simp add: py_slice_def Let_def)
qed

lemma concat_chunks:
  "0 < n \<Longrightarrow> 0 \<le> i \<Longrightarrow>
     concat (map (\<lambda>j. py_slice lst j (j + n)) (range_up i (int (length lst)) n))
       = drop (nat i) lst"
proof (induction i "int (length lst)" n rule: range_up.induct)
  case (1 i step)
  show ?case
  proof (cases "i < int (length lst)")
    case True
    have "concat (map (\<lambda>j. py_slice lst j (j + step)) (range_up (i + step) (int (length lst)) step))
            = drop (nat (i + step)) lst"
      using 1 True by simp
    moreover have "take (nat step) (drop (nat i) lst) @ drop (nat (i + step)) lst
                     = drop (nat i) lst"
    proof -
      have "drop (nat (i + step)) lst = drop (nat step) (drop (nat i) lst)"
        using 1(2,3) by (simp add: nat_add_distrib add.commute)
      then show ?thesis by (simp only: append_take_drop_id)
    qed
    ultimately show ?thesis
      using 1(2,3) True by (simp only: range_up_step py_slice_chunk list.map concat.simps)
  next
    case False
    then show ?thesis using 1(3) by (simp add: range_up_done)
  qed
qed


lemma range_up_empty_iff: "0 < n \<Longrightarrow> range_up i L n = [] \<longleftrightarrow> \<not> i < L"
  by (subst range_up.simps) simp

lemma range_up_butlast:
  "0 < n \<Longrightarrow> j \<in> set (butlast (range_up i L n)) \<Longrightarrow> i \<le> j \<and> j + n < L"
proof (induction i L n rule: range_up.induct)
  case (1 i stop step)
  show ?case
  proof (cases "i < stop")
    case True
    note unf = range_up_step[OF 1(2) True]
    show ?thesis
    proof (cases "i + step < stop")
      case next_in: True
      then have "range_up (i + step) stop step \<noteq> []"
        using 1(2) by (simp add: range_up_empty_iff)
      with 1(3) have "j = i \<or> j \<in> set (butlast (range_up (i + step) stop step))"
        unfolding unf by simp
      then show ?thesis
      proof
        assume "j = i"
        then show ?thesis using next_in by simp
      next
        assume "j \<in> set (butlast (range_up (i + step) stop step))"
        from 1(1)[OF _ 1(2) this] 1(2) True show ?thesis by simp
      qed
    next
      case False
      then have "range_up (i + step) stop step = []" by (simp add: range_up_done)
      with 1(3) show ?thesis unfolding unf by simp
    qed
  next
    case False
    with 1(3) show ?thesis by (simp add: range_up_done)
  qed
qed

lemma range_up_last:
  "0 < n \<Longrightarrow> i < L \<Longrightarrow>
     i \<le> last (range_up i L n) \<and> last (range_up i L n) < L
     \<and> L \<le> last (range_up i L n) + n \<and> (last (range_up i L n) - i) mod n = 0"
proof (induction i L n rule: range_up.induct)
  case (1 i stop step)
  note unf = range_up_step[OF 1(2) 1(3)]
  show ?case
  proof (cases "i + step < stop")
    case True
    then have ne: "range_up (i + step) stop step \<noteq> []"
      using 1(2) by (simp add: range_up_empty_iff)
    from 1(1)[OF _ 1(2) True] 1(2) 1(3)
    have ih: "i + step \<le> last (range_up (i + step) stop step)"
      "last (range_up (i + step) stop step) < stop"
      "stop \<le> last (range_up (i + step) stop step) + step"
      "(last (range_up (i + step) stop step) - (i + step)) mod step = 0"
      by simp_all
    have "(last (range_up (i + step) stop step) - i) mod step
            = ((last (range_up (i + step) stop step) - (i + step)) + step) mod step"
      by (simp add: algebra_simps)
    also have "\<dots> = 0" using ih(4) by (metis mod_add_self2 )
    finally show ?thesis
      unfolding unf using ne ih 1(2) by simp
  next
    case False
    then have "range_up (i + step) stop step = []" by (simp add: range_up_done)
    then show ?thesis unfolding unf using False 1(3) by simp
  qed
qed

lemma length_py_slice_chunk:
  "0 \<le> j \<Longrightarrow> 0 < n \<Longrightarrow>
     int (length (py_slice lst j (j + n))) = min n (max 0 (int (length lst) - j))"
  by (simp add: py_slice_chunk)


text \<open>
  C7: for a positive chunk size \<open>n\<close>, \<open>divide\<close> returns chunks that concatenate back to
  the list; every chunk but the last has length \<open>n\<close>; the last one has length
  \<open>L mod n\<close>, or \<open>n\<close> when \<open>n\<close> divides the length \<open>L\<close>; there is a chunk exactly when
  the list is not empty.
\<close>

theorem divide_chunks:
  assumes "0 < n"
  shows "\<exists>chunks. divide_lst lst n = Inr chunks
           \<and> concat chunks = lst
           \<and> (\<forall>c \<in> set (butlast chunks). int (length c) = n)
           \<and> (chunks \<noteq> [] \<longrightarrow>
                int (length (last chunks))
                  = (if int (length lst) mod n = 0 then n else int (length lst) mod n))
           \<and> (chunks \<noteq> [] \<longleftrightarrow> lst \<noteq> [])"
proof -
  let ?L = "int (length lst)"
  let ?idx = "range_up 0 ?L n"
  let ?f = "\<lambda>j. py_slice lst j (j + n)"
  have div: "divide_lst lst n = Inr (map ?f ?idx)"
    using assms by (simp add: divide_lst_def py_range_def)
  have cat: "concat (map ?f ?idx) = lst"
    using concat_chunks[OF assms, of 0 lst] by simp
  have ne: "map ?f ?idx \<noteq> [] \<longleftrightarrow> lst \<noteq> []"
    using assms by (simp add: range_up_empty_iff)
  have full: "int (length c) = n" if "c \<in> set (butlast (map ?f ?idx))" for c
  proof -
    from that obtain j where j: "j \<in> set (butlast ?idx)" and c: "c = ?f j"
      by (auto simp: map_butlast[symmetric])
    from range_up_butlast[OF assms j] have "0 \<le> j" "j + n < ?L" by simp_all
    then show ?thesis unfolding c using assms by (simp add: length_py_slice_chunk)
  qed
  have lastlen: "int (length (last (map ?f ?idx))) = (if ?L mod n = 0 then n else ?L mod n)"
    if "map ?f ?idx \<noteq> []"
  proof -
    from that ne have pos: "0 < ?L" by simp
    from that have idx: "?idx \<noteq> []" by simp
    let ?j = "last ?idx"
    from range_up_last[OF assms pos]
    have j: "0 \<le> ?j" "?j < ?L" "?L \<le> ?j + n" "?j mod n = 0" by simp_all
    have len: "int (length (?f ?j)) = ?L - ?j"
      using j assms by (simp add: length_py_slice_chunk)
    have "?L mod n = (?L - ?j) mod n"
      using j(4) by (metis mod_diff_right_eq diff_zero)
    moreover have "(?L - ?j) mod n = (if ?L - ?j = n then 0 else ?L - ?j)"
      using j assms by simp
    ultimately have "?L - ?j = (if ?L mod n = 0 then n else ?L mod n)"
      using j assms by auto
    with len show ?thesis using idx by (simp add: last_map)
  qed
  from div cat full lastlen ne show ?thesis by blast
qed

theorem divide_chunks_witness:
  "(0::int) < 2
   \<and> divide_lst [1, 2, 3, 4, 5 :: nat] 2 = Inr [[1, 2], [3, 4], [5]]
   \<and> concat [[1, 2], [3, 4], [5 :: nat]] = [1, 2, 3, 4, 5]
   \<and> list_all (\<lambda>c. int (length c) = 2) (butlast [[1, 2], [3, 4], [5 :: nat]])
   \<and> int (length (last [[1, 2], [3, 4], [5 :: nat]])) = int (length [1, 2, 3, 4, 5 :: nat]) mod 2"
proof -
  have pos: "(0::int) < 2" by simp
  have run: "divide_lst [1, 2, 3, 4, 5 :: nat] 2 = Inr [[1, 2], [3, 4], [5]]"
    by (simp add: divide_lst_def py_range_def range_up.simps py_slice_def)
  from divide_chunks[OF pos, of "[1, 2, 3, 4, 5 :: nat]"] run pos show ?thesis
    by simp
qed

section \<open>The price scans\<close>

lemma price_conversion_all_digits:
  "\<exists>d. price_conversion s = Inr d \<and> list_all is_digit d"
  by (simp add: price_conversion_eq list_all_iff)

lemma scan_prices_result:
  "scan_prices ws acc ids = Inr (ps, ids') \<Longrightarrow>
     ids' = ids
     \<and> (\<exists>new. ps = acc @ new
          \<and> list_all2 ozon_price_of (filter (\<lambda>w. py_str (Kod w) \<in> set ids) ws) new)"
proof (induction ws arbitrary: acc)
  case Nil
  then show ?case by simp
next
  case (Cons w ws)
  show ?case
  proof (cases "py_str (Kod w) \<in> set ids")
    case True
    with Cons.prems obtain d where d: "price_conversion_cell (Tsena w) = Inr d"
      and rec: "scan_prices ws
                  (acc @ [\<lparr>auto_action_enabled = ''UNKNOWN'', currency_code = ''RUB'',
                            price_offer_id = py_str (Kod w), old_price = ''0'', price = d\<rparr>])
                  ids = Inr (ps, ids')"
      by (auto split: sum.splits)
    from Cons.IH[OF rec] obtain new where
      "ids' = ids" and ps: "ps = (acc @ [\<lparr>auto_action_enabled = ''UNKNOWN'', currency_code = ''RUB'',
                            price_offer_id = py_str (Kod w), old_price = ''0'', price = d\<rparr>]) @ new"
      and rel: "list_all2 ozon_price_of (filter (\<lambda>w. py_str (Kod w) \<in> set ids) ws) new"
      by blast
    moreover have "ozon_price_of w \<lparr>auto_action_enabled = ''UNKNOWN'', currency_code = ''RUB'',
                            price_offer_id = py_str (Kod w), old_price = ''0'', price = d\<rparr>"
      using d by (simp add: ozon_price_of_def)
    ultimately show ?thesis using True by simp
  next
    case False
    with Cons show ?thesis by simp
  qed
qed

lemma market_scan_prices_result:
  "market_scan_prices ws acc ids = Inr (ps, ids') \<Longrightarrow>
     ids' = ids
     \<and> (\<exists>new. ps = acc @ new
          \<and> list_all2 market_price_of (filter (\<lambda>w. py_str (Kod w) \<in> set ids) ws) new)"
proof (induction ws arbitrary: acc)
  case Nil
  then show ?case by simp
next
  case (Cons w ws)
  show ?case
  proof (cases "py_str (Kod w) \<in> set ids")
    case True
    with Cons.prems obtain d v where d: "price_conversion_cell (Tsena w) = Inr d"
      and v: "py_int_str d = Inr v"
      and rec: "market_scan_prices ws
                  (acc @ [\<lparr>price_id = py_str (Kod w),
                            price_money = \<lparr>money_value = v, currencyId = ''RUR''\<rparr>\<rparr>])
                  ids = Inr (ps, ids')"
      by (auto split: sum.splits)
    from Cons.IH[OF rec] obtain new where
      "ids' = ids" and ps: "ps = (acc @ [\<lparr>price_id = py_str (Kod w),
                            price_money = \<lparr>money_value = v, currencyId = ''RUR''\<rparr>\<rparr>]) @ new"
      and rel: "list_all2 market_price_of (filter (\<lambda>w. py_str (Kod w) \<in> set ids) ws) new"
      by blast
    moreover have "market_price_of w \<lparr>price_id = py_str (Kod w),
                            price_money = \<lparr>money_value = v, currencyId = ''RUR''\<rparr>\<rparr>"
      using d v by (simp add: market_price_of_def)
    ultimately show ?thesis using True by simp
  next
    case False
    with Cons show ?thesis by simp
  qed
qed

lemma scan_prices_succeeds:
  "(\<And>w. w \<in> set ws \<Longrightarrow> py_str (Kod w) \<in> set ids \<Longrightarrow> \<exists>s. Tsena w = PStr s)
     \<Longrightarrow> \<exists>ps. scan_prices ws acc ids = Inr (ps, ids)"
proof (induction ws arbitrary: acc)
  case Nil
  show ?case by simp
next
  case (Cons w ws)
  have rest: "\<exists>ps. scan_prices ws acc' ids = Inr (ps, ids)" for acc'
    using Cons.IH Cons.prems by simp
  show ?case
  proof (cases "py_str (Kod w) \<in> set ids")
    case True
    with Cons.prems obtain s where "Tsena w = PStr s" by auto
    then show ?thesis using True rest by (simp add: price_conversion_eq)
  next
    case False
    then show ?thesis using rest by simp
  qed
qed

lemma market_scan_prices_succeeds:
  "(\<And>w. w \<in> set ws \<Longrightarrow> py_str (Kod w) \<in> set ids \<Longrightarrow>
        \<exists>s. Tsena w = PStr s \<and> filter is_digit (takeWhile (\<lambda>c. c \<noteq> CHR ''.'') s) \<noteq> []
            \<and> length (filter is_digit (takeWhile (\<lambda>c. c \<noteq> CHR ''.'') s))
                  \<le> int_max_str_digits)
     \<Longrightarrow> \<exists>ps. market_scan_prices ws acc ids = Inr (ps, ids)"
proof (induction ws arbitrary: acc)
  case Nil
  show ?case by simp
next
  case (Cons w ws)
  have rest: "\<exists>ps. market_scan_prices ws acc' ids = Inr (ps, ids)" for acc'
    using Cons.IH Cons.prems by simp
  show ?case
  proof (cases "py_str (Kod w) \<in> set ids")
    case True
    with Cons.prems obtain s where s: "Tsena w = PStr s"
      and ne: "filter is_digit (takeWhile (\<lambda>c. c \<noteq> CHR ''.'') s) \<noteq> []"
      and le: "length (filter is_digit (takeWhile (\<lambda>c. c \<noteq> CHR ''.'') s))
                 \<le> int_max_str_digits"
      by auto
    have "py_int_str (filter is_digit (takeWhile (\<lambda>c. c \<noteq> CHR ''.'') s))
            = Inr (int (decimal 0 (filter is_digit (takeWhile (\<lambda>c. c \<noteq> CHR ''.'') s))))"
      using ne le by (intro py_int_str_digits) (simp_all add: list_all_iff)
    then show ?thesis using True rest s by (simp add: price_conversion_eq)
  next
    case False
    then show ?thesis using rest by simp
  qed
qed

lemma market_scan_prices_append:
  "market_scan_prices (xs @ ys) acc ids =
     (case market_scan_prices xs acc ids of
        Inl e \<Rightarrow> Inl e
      | Inr (a, l) \<Rightarrow> market_scan_prices ys a l)"
  by (induction xs arbitrary: acc) (auto split: sum.splits)

lemma market_scan_prices_empty_price:
  assumes "py_str (Kod w) \<in> set ids" "Tsena w = PStr s"
    and "filter is_digit (takeWhile (\<lambda>c. c \<noteq> CHR ''.'') s) = []"
  shows "market_scan_prices (w # post) acc ids = Inl ValueError"
  using assms by (simp add: price_conversion_eq py_int_str_empty)

section \<open>The price reconcilers\<close>

lemma list_all2_right_preimage:
  "list_all2 R xs ys \<Longrightarrow> y \<in> set ys \<Longrightarrow> \<exists>x \<in> set xs. R x y"
  by (induction rule: list_all2_induct) auto

text \<open>
  C5: when a price reconciler returns, the caller's offer-id list is as it was, the
  output holds one entry for each feed record whose code is a known offer id, in feed
  order, and no entry for an offer id that no record carries. The first marketplace's
  reconciler returns whenever the prices of the matched records are texts; the second
  one whenever each of them also has a digit before its first period, and no more of
  them than \<open>int\<close> accepts.
\<close>

theorem price_reconcilers_match_only:
  "(create_prices ws ids = Inr (ps, ids') \<longrightarrow>
       ids' = ids
     \<and> list_all2 ozon_price_of (filter (\<lambda>w. py_str (Kod w) \<in> set ids) ws) ps
     \<and> (\<forall>i \<in> set ids. i \<notin> (\<lambda>w. py_str (Kod w)) ` set ws \<longrightarrow> i \<notin> price_offer_id ` set ps))
   \<and> (market_create_prices ws ids = Inr (mps, mids') \<longrightarrow>
       mids' = ids
     \<and> list_all2 market_price_of (filter (\<lambda>w. py_str (Kod w) \<in> set ids) ws) mps
     \<and> (\<forall>i \<in> set ids. i \<notin> (\<lambda>w. py_str (Kod w)) ` set ws \<longrightarrow> i \<notin> price_id ` set mps))
   \<and> ((\<forall>w \<in> set ws. py_str (Kod w) \<in> set ids \<longrightarrow> (\<exists>s. Tsena w = PStr s))
        \<longrightarrow> (\<exists>ps. create_prices ws ids = Inr (ps, ids)))
   \<and> ((\<forall>w \<in> set ws. py_str (Kod w) \<in> set ids \<longrightarrow>
           (\<exists>s. Tsena w = PStr s
                \<and> filter is_digit (takeWhile (\<lambda>c. c \<noteq> CHR ''.'') s) \<noteq> []
                \<and> length (filter is_digit (takeWhile (\<lambda>c. c \<noteq> CHR ''.'') s))
                      \<le> int_max_str_digits))
        \<longrightarrow> (\<exists>mps. market_create_prices ws ids = Inr (mps, ids)))"
proof (intro conjI impI)
  assume run: "create_prices ws ids = Inr (ps, ids')"
  from scan_prices_result[OF run[unfolded create_prices_def]]
  have ids: "ids' = ids"
    and rel: "list_all2 ozon_price_of (filter (\<lambda>w. py_str (Kod w) \<in> set ids) ws) ps"
    by auto
  show "ids' = ids" by (rule ids)
  show "list_all2 ozon_price_of (filter (\<lambda>w. py_str (Kod w) \<in> set ids) ws) ps" by (rule rel)
  show "\<forall>i \<in> set ids. i \<notin> (\<lambda>w. py_str (Kod w)) ` set ws \<longrightarrow> i \<notin> price_offer_id ` set ps"
  proof (intro ballI impI notI)
    fix i assume "i \<in> price_offer_id ` set ps" and nin: "i \<notin> (\<lambda>w. py_str (Kod w)) ` set ws"
    then obtain p where p: "p \<in> set ps" "i = price_offer_id p" by auto
    from list_all2_right_preimage[OF rel p(1)]
    obtain w where "w \<in> set (filter (\<lambda>w. py_str (Kod w) \<in> set ids) ws)"
      and "ozon_price_of w p"
      by blast
    then have "i \<in> (\<lambda>w. py_str (Kod w)) ` set ws"
      using p(2) by (auto simp: ozon_price_of_def)
    with nin show False by contradiction
  qed
next
  assume run: "market_create_prices ws ids = Inr (mps, mids')"
  from market_scan_prices_result[OF run[unfolded market_create_prices_def]]
  have ids: "mids' = ids"
    and rel: "list_all2 market_price_of (filter (\<lambda>w. py_str (Kod w) \<in> set ids) ws) mps"
    by auto
  show "mids' = ids" by (rule ids)
  show "list_all2 market_price_of (filter (\<lambda>w. py_str (Kod w) \<in> set ids) ws) mps"
    by (rule rel)
  show "\<forall>i \<in> set ids. i \<notin> (\<lambda>w. py_str (Kod w)) ` set ws \<longrightarrow> i \<notin> price_id ` set mps"
  proof (intro ballI impI notI)
    fix i assume "i \<in> price_id ` set mps" and nin: "i \<notin> (\<lambda>w. py_str (Kod w)) ` set ws"
    then obtain p where p: "p \<in> set mps" "i = price_id p" by auto
    from list_all2_right_preimage[OF rel p(1)]
    obtain w where "w \<in> set (filter (\<lambda>w. py_str (Kod w) \<in> set ids) ws)"
      and "market_price_of w p"
      by blast
    then have "i \<in> (\<lambda>w. py_str (Kod w)) ` set ws"
      using p(2) by (auto simp: market_price_of_def)
    with nin show False by contradiction
  qed
next
  assume "\<forall>w \<in> set ws. py_str (Kod w) \<in> set ids \<longrightarrow> (\<exists>s. Tsena w = PStr s)"
  then show "\<exists>ps. create_prices ws ids = Inr (ps, ids)"
    unfolding create_prices_def by (intro scan_prices_succeeds) blast
next
  assume "\<forall>w \<in> set ws. py_str (Kod w) \<in> set ids \<longrightarrow>
           (\<exists>s. Tsena w = PStr s
                \<and> filter is_digit (takeWhile (\<lambda>c. c \<noteq> CHR ''.'') s) \<noteq> []
                \<and> length (filter is_digit (takeWhile (\<lambda>c. c \<noteq> CHR ''.'') s))
                      \<le> int_max_str_digits)"
  then show "\<exists>mps. market_create_prices ws ids = Inr (mps, ids)"
    unfolding market_create_prices_def by (intro market_scan_prices_succeeds) blast
qed

theorem price_reconcilers_match_only_witness:
  "create_prices demo_feed demo_offer_ids = Inr (demo_prices, demo_offer_ids)
   \<and> list_all2 ozon_price_of
        (filter (\<lambda>w. py_str (Kod w) \<in> set demo_offer_ids) demo_feed) demo_prices
   \<and> ''C3'' \<in> set demo_offer_ids \<and> ''C3'' \<notin> (\<lambda>w. py_str (Kod w)) ` set demo_feed
   \<and> ''C3'' \<notin> price_offer_id ` set demo_prices
   \<and> market_create_prices demo_feed demo_offer_ids = Inr (demo_market_prices, demo_offer_ids)
   \<and> list_all2 market_price_of
        (filter (\<lambda>w. py_str (Kod w) \<in> set demo_offer_ids) demo_feed) demo_market_prices
   \<and> ''C3'' \<notin> price_id ` set demo_market_prices
   \<and> list_all (\<lambda>w. Tsena w = PStr ''100.00 r'' \<or> Tsena w = PStr ''200.00 r'') demo_feed
   \<and> (\<exists>ps. create_prices demo_feed demo_offer_ids = Inr (ps, demo_offer_ids))
   \<and> (\<exists>mps. market_create_prices demo_feed demo_offer_ids = Inr (mps, demo_offer_ids))"
proof -
  note defs = demo_feed_def demo_a1_def demo_b2_def demo_offer_ids_def demo_prices_def
    demo_market_prices_def create_prices_def market_create_prices_def price_conversion_def
    re_sub_non_digits_def py_int_str_def transform_decimal_and_space_def
    long_from_string_def int_max_str_digits_def is_digit_def is_space_def digit_val_def Let_def
  have run: "create_prices demo_feed demo_offer_ids = Inr (demo_prices, demo_offer_ids)"
    by (simp add: defs)
  have mrun: "market_create_prices demo_feed demo_offer_ids
                = Inr (demo_market_prices, demo_offer_ids)"
    by (simp add: defs)
  have c3: "''C3'' \<in> set demo_offer_ids" "''C3'' \<notin> (\<lambda>w. py_str (Kod w)) ` set demo_feed"
    by (simp_all add: defs)
  have texts: "list_all (\<lambda>w. Tsena w = PStr ''100.00 r'' \<or> Tsena w = PStr ''200.00 r'') demo_feed"
    by (simp add: defs)
  note t = price_reconcilers_match_only[of demo_feed demo_offer_ids demo_prices demo_offer_ids
      demo_market_prices demo_offer_ids]
  note t1 = t[THEN conjunct1, THEN mp, OF run]
  note t2 = t[THEN conjunct2, THEN conjunct1, THEN mp, OF mrun]
  note r1 = t1[THEN conjunct2, THEN conjunct1]
  note q1 = t1[THEN conjunct2, THEN conjunct2]
  note r2 = t2[THEN conjunct2, THEN conjunct1]
  note q2 = t2[THEN conjunct2, THEN conjunct2]
  from q1 c3 have n1: "''C3'' \<notin> price_offer_id ` set demo_prices" by blast
  from q2 c3 have n2: "''C3'' \<notin> price_id ` set demo_market_prices" by blast
  have h3: "\<forall>w \<in> set demo_feed. py_str (Kod w) \<in> set demo_offer_ids
               \<longrightarrow> (\<exists>s. Tsena w = PStr s)"
    by (simp add: defs)
  have h4: "\<forall>w \<in> set demo_feed. py_str (Kod w) \<in> set demo_offer_ids \<longrightarrow>
              (\<exists>s. Tsena w = PStr s
                   \<and> filter is_digit (takeWhile (\<lambda>c. c \<noteq> CHR ''.'') s) \<noteq> []
                   \<and> length (filter is_digit (takeWhile (\<lambda>c. c \<noteq> CHR ''.'') s))
                         \<le> int_max_str_digits)"
    by (simp add: defs)
  note e3 = t[THEN conjunct2, THEN conjunct2, THEN conjunct1, THEN mp, OF h3]
  note e4 = t[THEN conjunct2, THEN conjunct2, THEN conjunct2, THEN mp, OF h4]
  from run mrun c3 texts r1 r2 n1 n2 e3 e4 show ?thesis by (intro conjI)
qed

section \<open>Totality of the price normalizer\<close>

lemma market_scan_prices_fails:
  assumes "py_str (Kod w) \<in> set ids" "Tsena w = PStr s"
    and "filter is_digit (takeWhile (\<lambda>c. c \<noteq> CHR ''.'') s) = []"
  shows "\<exists>e. market_scan_prices (pre @ w # post) acc ids = Inl e"
proof (cases "market_scan_prices pre acc ids")
  case (Inl e)
  then show ?thesis by (simp add: market_scan_prices_append)
next
  case (Inr r)
  obtain a l where "r = (a, l)" by (cases r)
  with Inr have pre: "market_scan_prices pre acc ids = Inr (a, l)" by simp
  from market_scan_prices_result[OF pre] have "l = ids" by simp
  with assms have "market_scan_prices (w # post) a l = Inl ValueError"
    by (simp only: market_scan_prices_empty_price)
  with pre show ?thesis by (simp add: market_scan_prices_append)
qed

text \<open>
  C9: \<open>price_conversion\<close> returns for every input string, and what it returns consists
  of decimal digits only. When no digit precedes the first period of the input it
  returns the empty string; \<open>market.create_prices\<close> then fails on a record of a known
  offer id that carries such a price, with the \<open>ValueError\<close> of \<open>int("")\<close> when the
  records before it convert.
\<close>

theorem price_conversion_total_digits:
  "(\<exists>d. price_conversion s = Inr d \<and> list_all is_digit d)
   \<and> (filter is_digit (takeWhile (\<lambda>c. c \<noteq> CHR ''.'') s) = [] \<longrightarrow>
         price_conversion s = Inr []
       \<and> (py_str (Kod w) \<in> set ids \<and> Tsena w = PStr s \<longrightarrow>
            (\<exists>e. market_create_prices (pre @ w # post) ids = Inl e)
          \<and> (\<forall>r. market_create_prices pre ids = Inr r \<longrightarrow>
                 market_create_prices (pre @ w # post) ids = Inl ValueError)))"
proof (intro conjI impI allI)
  show "\<exists>d. price_conversion s = Inr d \<and> list_all is_digit d"
    by (rule price_conversion_all_digits)
next
  assume "filter is_digit (takeWhile (\<lambda>c. c \<noteq> CHR ''.'') s) = []"
  then show "price_conversion s = Inr []" by (simp add: price_conversion_eq)
next
  assume e: "filter is_digit (takeWhile (\<lambda>c. c \<noteq> CHR ''.'') s) = []"
    and m: "py_str (Kod w) \<in> set ids \<and> Tsena w = PStr s"
  then show "\<exists>e. market_create_prices (pre @ w # post) ids = Inl e"
    unfolding market_create_prices_def by (intro market_scan_prices_fails) simp_all
next
  fix r
  assume e: "filter is_digit (takeWhile (\<lambda>c. c \<noteq> CHR ''.'') s) = []"
    and m: "py_str (Kod w) \<in> set ids \<and> Tsena w = PStr s"
    and ok: "market_create_prices pre ids = Inr r"
  obtain a l where r: "r = (a, l)" by (cases r)
  from ok have pre: "market_scan_prices pre [] ids = Inr (a, l)"
    by (simp add: market_create_prices_def r)
  from market_scan_prices_result[OF pre] have "l = ids" by simp
  with e m have "market_scan_prices (w # post) a l = Inl ValueError"
    by (simp only: market_scan_prices_empty_price)
  with pre show "market_create_prices (pre @ w # post) ids = Inl ValueError"
    by (simp add: market_create_prices_def market_scan_prices_append)
qed

theorem price_conversion_total_digits_witness:
  "price_conversion ''n/a'' = Inr []
   \<and> filter is_digit (takeWhile (\<lambda>c. c \<noteq> CHR ''.'') ''n/a'') = []
   \<and> py_str (Kod demo_unpriced) \<in> set demo_offer_ids \<and> Tsena demo_unpriced = PStr ''n/a''
   \<and> market_create_prices demo_feed demo_offer_ids = Inr (demo_market_prices, demo_offer_ids)
   \<and> market_create_prices (demo_feed @ demo_unpriced # []) demo_offer_ids = Inl ValueError"
proof -
  note defs = demo_feed_def demo_a1_def demo_b2_def demo_offer_ids_def demo_unpriced_def
    demo_market_prices_def market_create_prices_def price_conversion_def
    re_sub_non_digits_def py_int_str_def transform_decimal_and_space_def
    long_from_string_def int_max_str_digits_def is_digit_def is_space_def digit_val_def Let_def
  have e: "filter is_digit (takeWhile (\<lambda>c. c \<noteq> CHR ''.'') ''n/a'') = []"
    by (simp add: is_digit_def)
  have m: "py_str (Kod demo_unpriced) \<in> set demo_offer_ids \<and> Tsena demo_unpriced = PStr ''n/a''"
    by (simp add: defs)
  have ok: "market_create_prices demo_feed demo_offer_ids
              = Inr (demo_market_prices, demo_offer_ids)"
    by (simp add: defs)
  note t = price_conversion_total_digits[of "''n/a''" demo_unpriced demo_offer_ids demo_feed "[]",
      THEN conjunct2, THEN mp, OF e]
  note t1 = t[THEN conjunct1]
  note t2 = t[THEN conjunct2, THEN mp, OF m, THEN conjunct2, THEN spec, THEN mp, OF ok]
  from t1 e m ok t2 show ?thesis by (intro conjI) simp_all
qed

section \<open>The chunker with a chunk size that is not positive\<close>

lemma divide_zero: "divide_lst lst 0 = Inl ValueError"
  by (simp add: divide_lst_def py_range_def)

lemma divide_negative: "n < 0 \<Longrightarrow> divide_lst lst n = Inr []"
  by (simp add: divide_lst_def py_range_def range_down_neg_empty)

text \<open>
  C8: a chunk size of zero makes \<open>divide\<close> fail with the \<open>ValueError\<close> of \<open>range\<close>, but a
  negative chunk size raises nothing: the range is empty and \<open>divide\<close> returns no chunk
  at all, whatever the list holds.
\<close>

theorem divide_nonpositive_chunk_size:
  "divide_lst [1, 2, 3 :: nat] (- 1) = Inr [] \<and> divide_lst [1, 2, 3 :: nat] 0 = Inl ValueError"
  by (simp add: divide_lst_def py_range_def range_down.simps)

section \<open>The pagination loop of the first marketplace\<close>

lemma fetch_pages_unfold:
  "fetch_pages nt lid pl log =
     (case next_page nt (log, lid, pl) of
        Inl e \<Rightarrow> Some (Inl e, log @ [ProductList lid])
      | Inr (t, (log', lid', pl')) \<Rightarrow>
          if t = int (length pl') then Some (Inr pl', log')
          else fetch_pages nt lid' pl' log')"
  by (subst fetch_pages.simps)
     (simp add: next_page_def get_product_list_def split: sum.splits)

lemma fetch_pages_returns_only_if:
  "fetch_pages nt lid pl log = Some y \<Longrightarrow>
     (\<forall>r log'. y = (Inr r, log') \<longrightarrow> (\<exists>n. completes nt (log, lid, pl) n))
     \<and> (\<forall>e log'. y = (Inl e, log') \<longrightarrow> (\<exists>n. \<not> answered nt (log, lid, pl) n))"
proof (induction rule: fetch_pages.raw_induct[rotated 1, consumes 1])
  case (1 f nt lid pl log y)
  show ?case
  proof (cases "next_page nt (log, lid, pl)")
    case (Inl e)
    then have "\<not> answered nt (log, lid, pl) (Suc 0)"
      by (simp add: answered_def)
    moreover from Inl 1(2) have "\<exists>e log'. y = (Inl e, log')"
      by (auto simp: next_page_def split: prod.splits sum.splits)
    ultimately show ?thesis by blast
  next
    case (Inr p)
    obtain t log' lid' pl' where p: "p = (t, (log', lid', pl'))" by (cases p) auto
    show ?thesis
    proof (cases "t = int (length pl')")
      case True
      with Inr p have "completes nt (log, lid, pl) 0"
        by (simp add: completes_def page_completes_def)
      moreover from Inr p True 1(2) have "\<exists>r log'. y = (Inr r, log')"
        by (auto simp: next_page_def split: prod.splits sum.splits)
      ultimately show ?thesis by blast
    next
      case False
      with Inr p 1(2) have rec: "f nt lid' pl' log' = Some y"
        by (auto simp: next_page_def split: prod.splits sum.splits)
      have step: "crawl nt (Suc n) (log, lid, pl) = crawl nt n (log', lid', pl')" for n
        using Inr p by simp
      have c: "completes nt (log', lid', pl') n \<Longrightarrow> completes nt (log, lid, pl) (Suc n)" for n
        unfolding completes_def step .
      have a: "\<not> answered nt (log', lid', pl') n \<Longrightarrow> \<not> answered nt (log, lid, pl) (Suc n)"
        for n
        unfolding answered_def step .
      from 1(1)[OF rec] c a show ?thesis by blast
    qed
  qed
qed


lemma fetch_pages_returns_if:
  "completes nt st n \<Longrightarrow> (\<And>k. k < n \<Longrightarrow> \<not> completes nt st k) \<Longrightarrow>
     \<exists>log' lid' pl'. crawl nt (Suc n) st = Inr (log', lid', pl')
        \<and> fetch_pages nt (fst (snd st)) (snd (snd st)) (fst st) = Some (Inr pl', log')"
proof (induction n arbitrary: st)
  case 0
  obtain log lid pl where st: "st = (log, lid, pl)" by (cases st) auto
  from 0(1) obtain t log' lid' pl' where np: "next_page nt st = Inr (t, (log', lid', pl'))"
    and t: "t = int (length pl')"
    by (auto simp: completes_def page_completes_def split: sum.splits)
  then show ?case
    unfolding st by (subst fetch_pages_unfold) simp
next
  case (Suc n)
  obtain log lid pl where st: "st = (log, lid, pl)" by (cases st) auto
  from Suc.prems(1) obtain t st' where np: "next_page nt st = Inr (t, st')"
    by (auto simp: completes_def split: sum.splits)
  obtain log' lid' pl' where st': "st' = (log', lid', pl')" by (cases st') auto
  have step: "crawl nt (Suc k) st = crawl nt k st'" for k
    using np by simp
  have "\<not> completes nt st 0" using Suc.prems(2) by simp
  then have nt: "t \<noteq> int (length pl')"
    using np st' by (simp add: completes_def page_completes_def)
  have c: "completes nt st' n"
    using Suc.prems(1) unfolding completes_def step .
  have nc: "\<not> completes nt st' k" if "k < n" for k
    using Suc.prems(2)[of "Suc k"] that unfolding completes_def step by simp
  from Suc.IH[OF c nc] obtain log'' lid'' pl'' where
    cr: "crawl nt (Suc n) st' = Inr (log'', lid'', pl'')"
    and fp: "fetch_pages nt lid' pl' log' = Some (Inr pl'', log'')"
    unfolding st' by auto
  have "fetch_pages nt lid pl log = Some (Inr pl'', log'')"
    using np nt fp unfolding st st' by (subst fetch_pages_unfold) simp
  moreover have "crawl nt (Suc (Suc n)) st = Inr (log'', lid'', pl'')"
    using cr unfolding step[of "Suc n"] .
  ultimately show ?case unfolding st by simp
qed

lemma fetch_pages_diverges:
  assumes "\<And>n. \<not> completes nt (log, lid, pl) n" "\<And>n. answered nt (log, lid, pl) n"
  shows "fetch_pages nt lid pl log = None"
proof (cases "fetch_pages nt lid pl log")
  case None
  then show ?thesis .
next
  case (Some y)
  obtain r log' where y: "y = (r, log')" by (cases y)
  from fetch_pages_returns_only_if[OF Some] assms show ?thesis
    unfolding y by (cases r) auto
qed

lemma get_offer_ids_Inr_iff:
  "get_offer_ids nt log0 = Some (Inr ids, log)
     \<longleftrightarrow> (\<exists>pl. fetch_pages nt [] [] log0 = Some (Inr pl, log) \<and> ids = map product_offer_id pl)"
  by (auto simp: get_offer_ids_def split: option.splits sum.splits prod.splits)

lemma get_offer_ids_None_iff:
  "get_offer_ids nt log0 = None \<longleftrightarrow> fetch_pages nt [] [] log0 = None"
  by (auto simp: get_offer_ids_def split: option.splits sum.splits prod.splits)

text \<open>
  C10: \<open>seller.get_offer_ids\<close> returns only if some page ends with the reported total
  equal to the number of products held; it then returns, at the first such page, the
  offer ids of all products of the pages fetched, in order. If no page ever ends so, the
  function never returns a list, and when every request is answered it does not return
  at all.
\<close>

theorem get_offer_ids_returns_iff_total_met:
  "(get_offer_ids nt log0 = Some (Inr ids, log) \<longrightarrow>
      (\<exists>n. completes nt (log0, [], []) n \<and> (\<forall>k<n. \<not> completes nt (log0, [], []) k)
           \<and> (\<exists>lid pl. crawl nt (Suc n) (log0, [], []) = Inr (log, lid, pl)
                  \<and> ids = map product_offer_id pl)))
   \<and> (completes nt (log0, [], []) n \<and> (\<forall>k<n. \<not> completes nt (log0, [], []) k) \<longrightarrow>
      (\<exists>log' lid pl. crawl nt (Suc n) (log0, [], []) = Inr (log', lid, pl)
           \<and> get_offer_ids nt log0 = Some (Inr (map product_offer_id pl), log')))
   \<and> ((\<forall>n. \<not> completes nt (log0, [], []) n) \<longrightarrow>
        (\<forall>ids log. get_offer_ids nt log0 \<noteq> Some (Inr ids, log))
      \<and> ((\<forall>n. answered nt (log0, [], []) n) \<longrightarrow> get_offer_ids nt log0 = None))"
proof -
  let ?st = "(log0, [], []) :: crawl_state"
  have pos: "\<exists>log' lid pl. crawl nt (Suc m) ?st = Inr (log', lid, pl)
               \<and> get_offer_ids nt log0 = Some (Inr (map product_offer_id pl), log')"
    if "completes nt ?st m" "\<forall>k<m. \<not> completes nt ?st k" for m
  proof -
    from fetch_pages_returns_if[OF that(1)] that(2)
    obtain log' lid pl where "crawl nt (Suc m) ?st = Inr (log', lid, pl)"
      and "fetch_pages nt [] [] log0 = Some (Inr pl, log')"
      by auto
    then show ?thesis by (auto simp: get_offer_ids_Inr_iff)
  qed
  have only_if: "\<exists>m. completes nt ?st m \<and> (\<forall>k<m. \<not> completes nt ?st k)
           \<and> (\<exists>lid pl. crawl nt (Suc m) ?st = Inr (log, lid, pl)
                  \<and> ids = map product_offer_id pl)"
    if ret: "get_offer_ids nt log0 = Some (Inr ids, log)" for ids log
  proof -
    from ret obtain pl where "fetch_pages nt [] [] log0 = Some (Inr pl, log)"
      by (auto simp: get_offer_ids_Inr_iff)
    from fetch_pages_returns_only_if[OF this] obtain n where n: "completes nt ?st n"
      by auto
    define m where "m = (LEAST n. completes nt ?st n)"
    have m: "completes nt ?st m" unfolding m_def using n by (rule LeastI)
    have least: "\<forall>k<m. \<not> completes nt ?st k"
      unfolding m_def using not_less_Least by blast
    from pos[OF m least] ret have "\<exists>lid pl. crawl nt (Suc m) ?st = Inr (log, lid, pl)
                  \<and> ids = map product_offer_id pl"
      by auto
    with m least show ?thesis by blast
  qed
  have div: "get_offer_ids nt log0 = None"
    if "\<forall>n. \<not> completes nt ?st n" "\<forall>n. answered nt ?st n"
    using fetch_pages_diverges[of nt log0 "[]" "[]"] that
    by (simp add: get_offer_ids_None_iff)
  from pos only_if div show ?thesis by blast
qed

lemma odd_total_next_page:
  "next_page odd_total_net (log, lid, pl)
     = Inr (3, (log @ [ProductList lid], ''2'',
                pl @ [\<lparr>product_id = 1, product_offer_id = ''A1''\<rparr>,
                      \<lparr>product_id = 2, product_offer_id = ''B2''\<rparr>]))"
  by (simp add: next_page_def get_product_list_def odd_total_net_def)

lemma odd_total_crawl:
  "\<exists>log' lid' pl'. crawl odd_total_net n (log, lid, pl) = Inr (log', lid', pl')
      \<and> length pl' = length pl + 2 * n"
proof (induction n arbitrary: log lid pl)
  case 0
  show ?case by simp
next
  case (Suc n)
  from Suc[of "log @ [ProductList lid]" "''2''"
      "pl @ [\<lparr>product_id = 1, product_offer_id = ''A1''\<rparr>,
             \<lparr>product_id = 2, product_offer_id = ''B2''\<rparr>]"]
  show ?case by (auto simp: odd_total_next_page)
qed

lemma odd_total_never_completes: "\<not> completes odd_total_net (log, lid, []) n"
proof -
  from odd_total_crawl[of n log lid "[]"] obtain log' lid' pl'
    where c: "crawl odd_total_net n (log, lid, []) = Inr (log', lid', pl')"
      and len: "length pl' = 2 * n"
    by auto
  have "(3::int) \<noteq> int (2 * n + 2)" by presburger
  then show ?thesis
    by (simp add: completes_def page_completes_def c odd_total_next_page len)
qed

lemma odd_total_answered: "answered odd_total_net (log, lid, pl) n"
  using odd_total_crawl[of n log lid pl] by (auto simp: answered_def)

theorem get_offer_ids_returns_iff_total_met_witness:
  "completes paged_net ([], [], []) 1
   \<and> \<not> completes paged_net ([], [], []) 0
   \<and> get_offer_ids paged_net []
       = Some (Inr [''A1'', ''B2'', ''C3''], [ProductList [], ProductList ''2''])
   \<and> get_offer_ids odd_total_net [] = None"
proof -
  note defs = completes_def page_completes_def next_page_def get_product_list_def paged_net_def
  have c1: "completes paged_net ([], [], []) 1"
    by (simp add: defs)
  have c0: "\<not> completes paged_net ([], [], []) 0"
    by (simp add: defs)
  then have least: "\<forall>k<1. \<not> completes paged_net ([], [], []) k"
    by simp
  have cr: "crawl paged_net (Suc 1) ([], [], [])
              = Inr ([ProductList [], ProductList ''2''], ''3'',
                     [\<lparr>product_id = 1, product_offer_id = ''A1''\<rparr>,
                      \<lparr>product_id = 2, product_offer_id = ''B2''\<rparr>,
                      \<lparr>product_id = 3, product_offer_id = ''C3''\<rparr>])"
    by (simp add: defs)
  note t = get_offer_ids_returns_iff_total_met[of paged_net "[]" _ _ 1]
  from t c1 least have "\<exists>log' lid pl. crawl paged_net (Suc 1) ([], [], []) = Inr (log', lid, pl)
           \<and> get_offer_ids paged_net [] = Some (Inr (map product_offer_id pl), log')"
    by blast
  with cr have ret: "get_offer_ids paged_net []
       = Some (Inr [''A1'', ''B2'', ''C3''], [ProductList [], ProductList ''2''])"
    by auto
  note u = get_offer_ids_returns_iff_total_met[of odd_total_net "[]"]
  have "\<forall>n. \<not> completes odd_total_net ([], [], []) n"
    by (simp add: odd_total_never_completes)
  moreover have "\<forall>n. answered odd_total_net ([], [], []) n"
    by (simp add: odd_total_answered)
  ultimately have "get_offer_ids odd_total_net [] = None"
    using u by blast
  with c1 c0 ret show ?thesis by simp
qed

section \<open>The orchestrator of the first marketplace\<close>

lemma scan_prices_no_match:
  "(\<And>w. w \<in> set ws \<Longrightarrow> py_str (Kod w) \<notin> set ids) \<Longrightarrow> scan_prices ws acc ids = Inr (acc, ids)"
  by (induction ws arbitrary: acc) auto

lemma create_prices_after_create_stocks:
  assumes "distinct ids" "create_stocks ws ids = Inr (stocks, left)"
  shows "create_prices ws left = Inr ([], left)"
proof -
  from assms(2) obtain st where "scan_stocks ws [] ids = Inr (st, left)"
    by (rule create_stocks_InrD)
  then have "scan_stocks ws [] (filter (\<lambda>i. i \<notin> set []) ids) = Inr (st, left)"
    by simp
  from scan_stocks_first_match[OF assms(1) this]
  have "left = filter (\<lambda>i. i \<notin> (\<lambda>w. py_str (Kod w)) ` set ws) ids" by simp
  then have "py_str (Kod w) \<notin> set left" if "w \<in> set ws" for w
    using that by auto
  then show ?thesis
    unfolding create_prices_def by (rule scan_prices_no_match)
qed

text \<open>
  C3: in \<open>seller.main\<close> the price reconciler works on the list that the stock reconciler
  has emptied of the matched ids, not on the catalog. In the scenario the run uploads
  the three stock entries and no price at all: \<open>create_prices\<close> is handed the leftover
  \<open>["C3"]\<close> and builds an empty list, whereas on the catalog it builds the two prices.
\<close>

theorem seller_main_prices_from_leftover:
  "seller_main demo_net
     = Some (Completed, [ProductList [], DownloadStock, ImportStocks demo_stocks])
   \<and> create_stocks demo_feed demo_offer_ids = Inr (demo_stocks, [''C3''])
   \<and> create_prices demo_feed [''C3''] = Inr ([], [''C3''])
   \<and> create_prices demo_feed demo_offer_ids = Inr (demo_prices, demo_offer_ids)"
proof -
  note defs = demo_feed_def demo_a1_def demo_b2_def demo_offer_ids_def demo_prices_def
    demo_stocks_def create_prices_def create_stocks_def price_conversion_def
    re_sub_non_digits_def is_digit_def Let_def
  have ids: "get_offer_ids demo_net [] = Some (Inr demo_offer_ids, [ProductList []])"
    unfolding get_offer_ids_def
    by (subst fetch_pages.simps) (simp add: get_product_list_def demo_net_def demo_offer_ids_def)
  have feed: "download_stock demo_net [ProductList []]
                = (Inr demo_feed, [ProductList [], DownloadStock])"
    by (simp add: download_stock_def demo_net_def)
  have st: "create_stocks demo_feed demo_offer_ids = Inr (demo_stocks, [''C3''])"
    by (simp add: defs)
  have pr: "create_prices demo_feed [''C3''] = Inr ([], [''C3''])"
    by (simp add: defs)
  have full: "create_prices demo_feed demo_offer_ids = Inr (demo_prices, demo_offer_ids)"
    by (simp add: defs)
  have ch: "divide_lst demo_stocks 100 = Inr [demo_stocks]"
    by (simp add: divide_lst_def py_range_def range_up_step range_up_done py_slice_def
        demo_stocks_def)
  have none: "divide_lst ([] :: ozon_price list) 900 = Inr []"
    by (simp add: divide_lst_def py_range_def range_up_done)
  have send: "for_each (update_stocks demo_net) [demo_stocks] [ProductList [], DownloadStock]
                = (None, [ProductList [], DownloadStock, ImportStocks demo_stocks])"
    by (simp add: update_stocks_def demo_net_def)
  have "seller_main demo_net
          = Some (Completed, [ProductList [], DownloadStock, ImportStocks demo_stocks])"
    unfolding seller_main_def by (simp add: ids feed st pr ch none send del: for_each.simps(2))
  with st pr full show ?thesis by simp
qed

text \<open>What holds for every run of \<open>seller.main\<close> on a catalog without repeated offer
  ids: no price update is sent.\<close>

lemma fetch_pages_log:
  "fetch_pages nt lid pl log = Some y \<Longrightarrow>
     filter is_price_import (snd y) = filter is_price_import log"
proof (induction rule: fetch_pages.raw_induct[rotated 1, consumes 1])
  case (1 f nt lid pl log y)
  show ?case
  proof (cases "list_reply nt (log @ [ProductList lid])")
    case (Inl e)
    with 1(2) show ?thesis by (auto simp: get_product_list_def)
  next
    case (Inr some_prod)
    show ?thesis
    proof (cases "listing_total some_prod = int (length (pl @ listing_items some_prod))")
      case True
      with Inr 1(2) show ?thesis by (auto simp: get_product_list_def)
    next
      case False
      with Inr 1(2) have "f nt (listing_last_id some_prod) (pl @ listing_items some_prod)
                            (log @ [ProductList lid]) = Some y"
        by (auto simp: get_product_list_def)
      from 1(1)[OF this] show ?thesis by simp
    qed
  qed
qed

lemma get_offer_ids_log:
  "get_offer_ids nt log = Some (r, log') \<Longrightarrow>
     filter is_price_import log' = filter is_price_import log"
  by (auto simp: get_offer_ids_def split: option.splits sum.splits prod.splits
      dest: fetch_pages_log)

lemma for_each_log:
  assumes "\<And>c log. filter P (snd (call c log)) = filter P log"
  shows "filter P (snd (for_each call cs log)) = filter P log"
proof (induction cs arbitrary: log)
  case Nil
  show ?case by simp
next
  case (Cons c cs)
  obtain r log' where step: "call c log = (r, log')" by (cases "call c log")
  with assms[of c log] have keep: "filter P log' = filter P log" by simp
  show ?case
  proof (cases r)
    case None
    with step Cons.IH[of log'] keep show ?thesis by simp
  next
    case (Some e)
    with step keep show ?thesis by simp
  qed
qed

lemma for_each_update_stocks_log:
  "for_each (update_stocks nt) cs log = (r, log') \<Longrightarrow>
     filter is_price_import log' = filter is_price_import log"
  using for_each_log[of is_price_import "update_stocks nt" cs log]
  by (simp add: update_stocks_def)

lemma seller_main_no_price_import:
  assumes run: "seller_main nt = Some (out, log)"
    and ids: "get_offer_ids nt [] = Some (Inr ids, log1)"
    and d: "distinct ids"
  shows "filter is_price_import log = []"
proof -
  from get_offer_ids_log[OF ids] have l1: "filter is_price_import log1 = []" by simp
  show ?thesis
  proof (cases "feed_reply nt (log1 @ [DownloadStock])")
    case (Inl e)
    with run ids l1 show ?thesis
      by (auto simp: seller_main_def download_stock_def)
  next
    case (Inr ws)
    let ?log2 = "log1 @ [DownloadStock]"
    have l2: "filter is_price_import ?log2 = []" using l1 by simp
    show ?thesis
    proof (cases "create_stocks ws ids")
      case (Inl e)
      with run ids Inr l2 show ?thesis
        by (auto simp: seller_main_def download_stock_def)
    next
      case st: (Inr p)
      obtain stocks left where p: "p = (stocks, left)" by (cases p)
      from create_prices_after_create_stocks[OF d st[unfolded p]]
      have pr: "create_prices ws left = Inr ([], left)" .
      have none: "divide_lst ([] :: ozon_price list) 900 = Inr []"
        by (simp add: divide_lst_def py_range_def range_up_done)
      show ?thesis
      proof (cases "divide_lst stocks 100")
        case (Inl e)
        with run ids Inr st p l2 show ?thesis
          by (auto simp: seller_main_def download_stock_def)
      next
        case ch: (Inr chunks)
        obtain r log3 where fe: "for_each (update_stocks nt) chunks ?log2 = (r, log3)"
          by (cases "for_each (update_stocks nt) chunks ?log2")
        from for_each_update_stocks_log[OF fe] l2
        have l3: "filter is_price_import log3 = []" by simp
        from run ids Inr st p ch fe pr none have "log = log3"
          by (cases r) (auto simp: seller_main_def download_stock_def)
        with l3 show ?thesis by simp
      qed
    qed
  qed
qed

section \<open>The orchestrator of the second marketplace\<close>

lemma market_fetch_pages_log:
  "market_fetch_pages mnt campaign_id page pl log = Some y \<Longrightarrow>
     filter is_price_post (snd y) = filter is_price_post log"
proof (induction rule: market_fetch_pages.raw_induct[rotated 1, consumes 1])
  case (1 f mnt campaign_id page pl log y)
  show ?case
  proof (cases "market_list_reply mnt (log @ [OfferMappingEntries campaign_id page])")
    case (Inl e)
    with 1(2) show ?thesis by (auto simp: market_get_product_list_def)
  next
    case (Inr some_prod)
    show ?thesis
    proof (cases "nextPageToken some_prod = None \<or> nextPageToken some_prod = Some []")
      case True
      with Inr 1(2) show ?thesis by (auto simp: market_get_product_list_def)
    next
      case False
      then obtain tok where tok: "nextPageToken some_prod = Some tok" "tok \<noteq> []" by auto
      with Inr 1(2) have "f mnt campaign_id tok (pl @ offerMappingEntries some_prod)
                            (log @ [OfferMappingEntries campaign_id page]) = Some y"
        by (auto simp: market_get_product_list_def)
      from 1(1)[OF this] show ?thesis by simp
    qed
  qed
qed

lemma market_get_offer_ids_log:
  "market_get_offer_ids mnt campaign_id log = Some (r, log') \<Longrightarrow>
     filter is_price_post log' = filter is_price_post log"
  by (auto simp: market_get_offer_ids_def split: option.splits sum.splits prod.splits
      dest: market_fetch_pages_log)

lemma for_each_market_update_stocks_log:
  "for_each (market_update_stocks mnt campaign_id) cs log = (r, log') \<Longrightarrow>
     filter is_price_post log' = filter is_price_post log"
  using for_each_log[of is_price_post "market_update_stocks mnt campaign_id" cs log]
  by (simp add: market_update_stocks_def)

lemma market_channel_log:
  assumes "market_channel mnt ws campaign_id warehouse_id log = Some (r, log')"
  shows "filter is_price_post log' = filter is_price_post log"
proof -
  from assms obtain g log1 where g: "market_get_offer_ids mnt campaign_id log = Some (g, log1)"
    by (auto simp: market_channel_def split: option.splits)
  note l1 = market_get_offer_ids_log[OF g]
  show ?thesis
  proof (cases g)
    case (Inl e)
    with assms g l1 show ?thesis by (auto simp: market_channel_def)
  next
    case (Inr ids)
    show ?thesis
    proof (cases "market_create_stocks (utcnow mnt log1) ws ids warehouse_id")
      case (Inl e)
      with assms g Inr l1 show ?thesis by (auto simp: market_channel_def)
    next
      case st: (Inr p)
      obtain stocks left where p: "p = (stocks, left)" by (cases p)
      show ?thesis
      proof (cases "divide_lst stocks 2000")
        case (Inl e)
        with assms g Inr st p l1 show ?thesis by (auto simp: market_channel_def)
      next
        case ch: (Inr chunks)
        obtain x log2 where fe: "for_each (market_update_stocks mnt campaign_id) chunks log1 = (x, log2)"
          by (cases "for_each (market_update_stocks mnt campaign_id) chunks log1")
        note l2 = for_each_market_update_stocks_log[OF fe]
        from assms g Inr st p ch fe have "log' = log2"
          by (cases x) (auto simp: market_channel_def market_upload_prices_def)
        with l1 l2 show ?thesis by simp
      qed
    qed
  qed
qed

lemma market_main_no_price_post:
  assumes "market_main cfg mnt = Some (out, log)"
  shows "filter is_price_post log = []"
proof (cases "market_feed_reply mnt [MarketDownloadStock]")
  case (Inl e)
  with assms show ?thesis by (auto simp: market_main_def market_download_stock_def)
next
  case (Inr ws)
  let ?log0 = "[MarketDownloadStock]"
  from assms Inr obtain r1 log1 where
    c1: "market_channel mnt ws (campaign_fbs_id cfg) (warehouse_fbs_id cfg) ?log0 = Some (r1, log1)"
    by (auto simp: market_main_def market_download_stock_def split: option.splits)
  from market_channel_log[OF c1] have l1: "filter is_price_post log1 = []" by simp
  show ?thesis
  proof (cases r1)
    case (Some e)
    with assms Inr c1 l1 show ?thesis
      by (auto simp: market_main_def market_download_stock_def)
  next
    case None
    with assms Inr c1 obtain r2 log2 where
      c2: "market_channel mnt ws (campaign_dbs_id cfg) (warehouse_dbs_id cfg) log1 = Some (r2, log2)"
      by (auto simp: market_main_def market_download_stock_def split: option.splits)
    from market_channel_log[OF c2] l1 have l2: "filter is_price_post log2 = []" by simp
    from assms Inr c1 None c2 have "log = log2"
      by (cases r2) (auto simp: market_main_def market_download_stock_def)
    with l2 show ?thesis by simp
  qed
qed

text \<open>
  C4: \<open>market.main\<close> does not carry out the price half of the pipeline. In the scenario
  the run fetches each channel's catalog and uploads its stocks, and that is all: the
  bare call \<open>upload_prices(..)\<close> only builds a coroutine. Had the coroutine been run, it
  would have fetched the catalog again and posted the two prices.
\<close>

theorem market_main_sends_no_prices:
  "market_main demo_config demo_market_net
     = Some (Completed,
             [MarketDownloadStock,
              OfferMappingEntries ''FBS'' [], PutStocks ''FBS'' demo_market_stocks,
              OfferMappingEntries ''DBS'' [], PutStocks ''DBS'' demo_market_stocks_dbs])
   \<and> await (market_upload_prices demo_market_net demo_feed ''FBS'') []
       = Some (Inr demo_market_prices,
               [OfferMappingEntries ''FBS'' [], PostPrices ''FBS'' demo_market_prices])"
proof -
  note feed = demo_feed_def demo_a1_def demo_b2_def
  have ids: "market_get_offer_ids demo_market_net c log
               = Some (Inr [''A1'', ''B2'', ''C3''], log @ [OfferMappingEntries c []])" for c log
    unfolding market_get_offer_ids_def
    by (subst market_fetch_pages.simps)
       (simp add: market_get_product_list_def demo_market_net_def)
  have st: "market_create_stocks demo_date demo_feed [''A1'', ''B2'', ''C3''] wh
              = Inr ([\<lparr>sku = ''A1'', warehouseId = wh,
            items = [\<lparr>item_count = 100, item_type = ''FIT'', updatedAt = demo_date\<rparr>]\<rparr>,
           \<lparr>sku = ''B2'', warehouseId = wh,
            items = [\<lparr>item_count = 0, item_type = ''FIT'', updatedAt = demo_date\<rparr>]\<rparr>,
           \<lparr>sku = ''C3'', warehouseId = wh,
            items = [\<lparr>item_count = 0, item_type = ''FIT'', updatedAt = demo_date\<rparr>]\<rparr>],
          [''C3''])" for wh
    by (simp add: market_create_stocks_def feed Let_def)
  have ch: "divide_lst [a, b, c] 2000 = Inr [[a, b, c]]" for a b c :: market_stock
    by (simp add: divide_lst_def py_range_def range_up_step range_up_done py_slice_def)
  have send: "for_each (market_update_stocks demo_market_net c) [s] log
                = (None, log @ [PutStocks c s])" for c s log
    by (simp add: market_update_stocks_def demo_market_net_def)
  have now: "utcnow demo_market_net log = demo_date" for log
    by (simp add: demo_market_net_def)
  have chan: "market_channel demo_market_net demo_feed c wh log
                = Some (None, log @ [OfferMappingEntries c [],
                     PutStocks c
          [\<lparr>sku = ''A1'', warehouseId = wh,
            items = [\<lparr>item_count = 100, item_type = ''FIT'', updatedAt = demo_date\<rparr>]\<rparr>,
           \<lparr>sku = ''B2'', warehouseId = wh,
            items = [\<lparr>item_count = 0, item_type = ''FIT'', updatedAt = demo_date\<rparr>]\<rparr>,
           \<lparr>sku = ''C3'', warehouseId = wh,
            items = [\<lparr>item_count = 0, item_type = ''FIT'', updatedAt = demo_date\<rparr>]\<rparr>]])" for c wh log
    unfolding market_channel_def
    by (simp add: ids st ch send now market_upload_prices_def del: for_each.simps(2))
  have dl: "market_download_stock demo_market_net [] = (Inr demo_feed, [MarketDownloadStock])"
    by (simp add: market_download_stock_def demo_market_net_def)
  have main: "market_main demo_config demo_market_net
     = Some (Completed,
             [MarketDownloadStock,
              OfferMappingEntries ''FBS'' [], PutStocks ''FBS'' demo_market_stocks,
              OfferMappingEntries ''DBS'' [], PutStocks ''DBS'' demo_market_stocks_dbs])"
    unfolding market_main_def
    by (simp add: dl chan demo_config_def demo_market_stocks_def demo_market_stocks_dbs_def)
  have pr: "market_create_prices demo_feed [''A1'', ''B2'', ''C3'']
              = Inr (demo_market_prices, [''A1'', ''B2'', ''C3''])"
    by (simp add: market_create_prices_def feed demo_market_prices_def price_conversion_def
        re_sub_non_digits_def py_int_str_def transform_decimal_and_space_def
    long_from_string_def int_max_str_digits_def is_digit_def is_space_def digit_val_def Let_def)
  have pch: "divide_lst demo_market_prices 500 = Inr [demo_market_prices]"
    by (simp add: divide_lst_def py_range_def range_up_step range_up_done py_slice_def
        demo_market_prices_def)
  have psend: "for_each (market_update_price demo_market_net c) [s] log
                = (None, log @ [PostPrices c s])" for c s log
    by (simp add: market_update_price_def demo_market_net_def)
  have aw: "await (market_upload_prices demo_market_net demo_feed ''FBS'') []
       = Some (Inr demo_market_prices,
               [OfferMappingEntries ''FBS'' [], PostPrices ''FBS'' demo_market_prices])"
    by (simp add: market_upload_prices_def ids pr pch psend del: for_each.simps(2))
  from main aw show ?thesis by simp
qed

end
